theory Spec2Isabelle
  imports Complex_Main "HOL-Library.AList" "HOL-Library.Char_ord" "HOL-Library.List_Lexorder"
begin

section \<open>Data model of \<^verbatim>\<open>threat_analyzer.py\<close>\<close>

text \<open>
  Python floats are modelled as mathematical reals; a float that may be NaN (the first entry
  of a pandas \<^verbatim>\<open>diff\<close>, a mean of nothing) is a \<open>real option\<close> with \<open>None\<close> for NaN, and a
  comparison with NaN is false, as in IEEE arithmetic. A \<^verbatim>\<open>datetime\<close> is its POSIX time in
  seconds. An f-string is kept as the list of its parts, a formatted number as the
  number with its format, so that what a text refers to can be read off it.

  Field names are the source's. Where two classes share a field name the second one carries
  a prefix: \<open>ev_id\<close>, \<open>ev_timestamp\<close>, \<open>ev_satellite_id\<close> for \<^verbatim>\<open>ThreatEvent\<close>, \<open>zone_\<close> and
  \<open>path_\<close> for the dictionaries of zones and communication paths.
\<close>

datatype fpart = Lit string | IntArg int | FixArg nat real

type_synonym fstring = "fpart list"

record SatellitePosition =
  satellite_id :: int
  latitude :: real
  longitude :: real
  altitude :: real
  velocity :: real
  timestamp :: real

record ThreatEvent =
  ev_id :: fstring
  ev_timestamp :: real
  source_lat :: real
  source_lon :: real
  target_lat :: real
  target_lon :: real
  threat_type :: string
  severity :: string
  ev_satellite_id :: "int option"
  description :: fstring

text \<open>
  The analyzer object: \<^verbatim>\<open>threat_events\<close> is a list, \<^verbatim>\<open>satellite_positions\<close> a dictionary,
  kept as an association list in insertion order (the order in which Python iterates it).
  The attributes \<^verbatim>\<open>threat_zones\<close>, \<^verbatim>\<open>communication_paths\<close> and \<^verbatim>\<open>anomaly_threshold\<close> are
  never read by any method and are left out.
\<close>

record ThreatAnalyzer =
  threat_events :: "ThreatEvent list"
  satellite_positions :: "(int \<times> SatellitePosition list) list"

definition init :: ThreatAnalyzer where
  "init = \<lparr>threat_events = [], satellite_positions = []\<rparr>"

text \<open>The slice \<^verbatim>\<open>xs[-n:]\<close>: the last \<open>n\<close> elements, all of them when there are fewer.\<close>

definition last_n :: "nat \<Rightarrow> 'a list \<Rightarrow> 'a list" where
  "last_n n xs = drop (length xs - n) xs"

text \<open>\<^verbatim>\<open>int(x)\<close> on a float truncates towards zero.\<close>

definition py_int :: "real \<Rightarrow> int" where
  "py_int x = (if 0 \<le> x then \<lfloor>x\<rfloor> else \<lceil>x\<rceil>)"

section \<open>The telemetry store\<close>

definition update_satellite_position :: "ThreatAnalyzer \<Rightarrow> SatellitePosition \<Rightarrow> ThreatAnalyzer" where
  "update_satellite_position st position =
     (let sid = satellite_id position;
          d0 = satellite_positions st;
          d1 = (if sid \<notin> fst ` set d0 then AList.update sid [] d0 else d0);
          h = (case map_of d1 sid of Some ps \<Rightarrow> ps | None \<Rightarrow> []) @ [position];
          d2 = AList.update sid h d1;
          d3 = (if length h > 100 then AList.update sid (last_n 100 h) d2 else d2)
      in st\<lparr>satellite_positions := d3\<rparr>)"

definition add_threat_event :: "ThreatAnalyzer \<Rightarrow> ThreatEvent \<Rightarrow> ThreatAnalyzer" where
  "add_threat_event st threat =
     (let es = threat_events st @ [threat]
      in st\<lparr>threat_events := (if length es > 1000 then last_n 1000 es else es)\<rparr>)"

text \<open>A sequence of record operations, as the transport layer issues them.\<close>

datatype record_op = RecordPosition SatellitePosition | RecordEvent ThreatEvent

fun apply_op :: "ThreatAnalyzer \<Rightarrow> record_op \<Rightarrow> ThreatAnalyzer" where
  "apply_op st (RecordPosition p) = update_satellite_position st p"
| "apply_op st (RecordEvent e) = add_threat_event st e"

definition run_ops :: "record_op list \<Rightarrow> ThreatAnalyzer" where
  "run_ops ops = foldl apply_op init ops"

fun recorded_positions :: "int \<Rightarrow> record_op list \<Rightarrow> SatellitePosition list" where
  "recorded_positions sid [] = []"
| "recorded_positions sid (RecordPosition p # ops) =
     (if satellite_id p = sid then p # recorded_positions sid ops else recorded_positions sid ops)"
| "recorded_positions sid (RecordEvent e # ops) = recorded_positions sid ops"

fun recorded_events :: "record_op list \<Rightarrow> ThreatEvent list" where
  "recorded_events [] = []"
| "recorded_events (RecordPosition p # ops) = recorded_events ops"
| "recorded_events (RecordEvent e # ops) = e # recorded_events ops"

definition history :: "ThreatAnalyzer \<Rightarrow> int \<Rightarrow> SatellitePosition list" where
  "history st sid = (case map_of (satellite_positions st) sid of Some ps \<Rightarrow> ps | None \<Rightarrow> [])"

section \<open>The 3D distance\<close>

definition radians :: "real \<Rightarrow> real" where
  "radians x = x * pi / 180"

definition calculate_3d_distance :: "SatellitePosition \<Rightarrow> SatellitePosition \<Rightarrow> real" where
  "calculate_3d_distance pos1 pos2 =
     (let R = 6371;
          lat1 = radians (latitude pos1); lon1 = radians (longitude pos1); alt1 = altitude pos1;
          lat2 = radians (latitude pos2); lon2 = radians (longitude pos2); alt2 = altitude pos2;
          r1 = R + alt1;
          r2 = R + alt2;
          x1 = r1 * cos lat1 * cos lon1;
          y1 = r1 * cos lat1 * sin lon1;
          z1 = r1 * sin lat1;
          x2 = r2 * cos lat2 * cos lon2;
          y2 = r2 * cos lat2 * sin lon2;
          z2 = r2 * sin lat2
      in sqrt ((x2 - x1)\<^sup>2 + (y2 - y1)\<^sup>2 + (z2 - z1)\<^sup>2))"

section \<open>Library operations\<close>

text \<open>
  Modelled from the spec: the pandas and numpy operations the detectors call are not among
  the sources. A pandas \<^verbatim>\<open>Series\<close> of floats is a list whose NaN entries are \<open>None\<close>;
  \<^verbatim>\<open>diff\<close> is the first difference (NaN in the first place), \<^verbatim>\<open>mean\<close> and \<^verbatim>\<open>std\<close> skip NaN,
  \<^verbatim>\<open>std\<close> is the sample standard deviation (divisor \<open>n - 1\<close>), and both are NaN when too few
  values remain.
\<close>

fun series_diff :: "real list \<Rightarrow> real option list" where
  "series_diff [] = []"
| "series_diff (x # xs) = None # map (\<lambda>(a, b). Some (b - a)) (zip (x # xs) xs)"

text \<open>Modelled from the spec: the values of a series that are not NaN, in order.\<close>

definition dropna :: "real option list \<Rightarrow> real list" where
  "dropna xs = concat (map (\<lambda>x. case x of None \<Rightarrow> [] | Some v \<Rightarrow> [v]) xs)"

text \<open>Modelled from the spec: \<^verbatim>\<open>Series.mean()\<close>, the mean of the values that are not NaN.\<close>

definition series_mean :: "real option list \<Rightarrow> real option" where
  "series_mean xs =
     (let vs = dropna xs
      in if vs = [] then None else Some (sum_list vs / real (length vs)))"

text \<open>
  Modelled from the spec: \<^verbatim>\<open>Series.std()\<close>, the sample standard deviation of the values that
  are not NaN.
\<close>

definition series_std :: "real option list \<Rightarrow> real option" where
  "series_std xs =
     (let vs = dropna xs; n = length vs
      in if n \<le> 1 then None
         else let avg = sum_list vs / real n
              in Some (sqrt (sum_list (map (\<lambda>v. (v - avg)\<^sup>2) vs) / real (n - 1))))"

text \<open>
  Modelled from the spec: the mean of a column without NaN, on a selection that is never
  empty where the source takes it (a cluster holds the events that carry its label).
\<close>

definition column_mean :: "real list \<Rightarrow> real" where
  "column_mean xs = sum_list xs / real (length xs)"

text \<open>
  Modelled from the spec: \<^verbatim>\<open>Series.mode()\<close>, the most frequent values, sorted; the source
  takes the first of them.
\<close>

definition series_mode :: "string list \<Rightarrow> string list" where
  "series_mode xs =
     sort (filter (\<lambda>k. \<forall>k'\<in>set xs. count_list xs k' \<le> count_list xs k) (remdups xs))"

text \<open>
  Modelled from the spec: \<^verbatim>\<open>StandardScaler().fit_transform\<close>, which centres each column on
  its mean and divides it by its standard deviation over the window (divisor \<open>n\<close>), a
  deviation of zero being replaced by one.
\<close>

text \<open>Modelled from the spec: column \<open>j\<close> of an array given by its rows.\<close>

definition column :: "nat \<Rightarrow> real list list \<Rightarrow> real list" where
  "column j X = map (\<lambda>r. r ! j) X"

text \<open>Modelled from the spec: the standard deviation of a column, with divisor \<open>n\<close>.\<close>

definition column_std :: "real list \<Rightarrow> real" where
  "column_std xs = sqrt (column_mean (map (\<lambda>x. (x - column_mean xs)\<^sup>2) xs))"

text \<open>Modelled from the spec: the scaling of every row of the array, column by column.\<close>

definition fit_transform :: "real list list \<Rightarrow> real list list" where
  "fit_transform X =
     (let d = (case X of [] \<Rightarrow> 0 | r # _ \<Rightarrow> length r);
          means = map (\<lambda>j. column_mean (column j X)) [0..<d];
          scales = map (\<lambda>j. let s = column_std (column j X) in if s = 0 then 1 else s) [0..<d]
      in map (\<lambda>r. map (\<lambda>j. (r ! j - means ! j) / scales ! j) [0..<d]) X)"

subsection \<open>Density clustering\<close>

text \<open>
  Modelled from the spec: the density clustering (\<^verbatim>\<open>DBSCAN(eps, min_samples).fit_predict\<close> of
  scikit-learn) is not among the sources. It first asks a neighbour search for the
  neighbourhood of every point, the indices of the points it finds within distance \<open>eps\<close>,
  and then scans the points. The scan is modelled below; the neighbour search, which
  works on doubles, is a parameter \<open>radius_neighbors\<close> of everything that clusters.
\<close>

text \<open>Modelled from the spec: the Euclidean distance of two points, in exact arithmetic.\<close>

definition euclidean :: "real list \<Rightarrow> real list \<Rightarrow> real" where
  "euclidean p q = sqrt (\<Sum>(a, b)\<leftarrow>zip p q. (a - b)\<^sup>2)"

text \<open>
  The neighbourhoods of all points of the array in exact arithmetic. The library computes the
  distances in double arithmetic, and where a distance is within rounding of \<open>eps\<close> its
  neighbourhoods can differ from these, and need not be symmetric. The clustering below
  therefore takes the neighbour search as a parameter; this function is the search on data
  whose distances are away from \<open>eps\<close>, as in the examples.
\<close>

definition exact_radius_neighbors :: "real \<Rightarrow> real list list \<Rightarrow> nat list list" where
  "exact_radius_neighbors eps X =
     map (\<lambda>p. filter (\<lambda>j. euclidean p (X ! j) \<le> eps) [0..<length X]) X"

text \<open>The number of points without a label; it decreases along the search below.\<close>

definition unlabelled :: "int list \<Rightarrow> nat" where
  "unlabelled labels = length (filter (\<lambda>l. l = -1) labels)"

lemma unlabelled_update:
  "i < length labels \<Longrightarrow> labels ! i = -1 \<Longrightarrow> unlabelled (labels[i := int c]) < unlabelled labels"
proof (induction labels arbitrary: i)
  case Nil
  then show ?case by simp
next
  case (Cons l ls)
  then show ?case by (cases i) (auto simp: unlabelled_def)
qed

text \<open>
  Modelled from the spec: the depth-first search of the clustering from a point \<open>i\<close>. A point
  without a label takes the label of the cluster; if it is a core point its neighbours
  without a label are pushed; the search goes on from the top of the stack until the stack
  is empty. Labels are cluster numbers, \<open>-1\<close> for noise.
\<close>

function dbscan_dfs ::
  "bool list \<Rightarrow> nat list list \<Rightarrow> nat \<Rightarrow> nat \<Rightarrow> nat list \<Rightarrow> int list \<Rightarrow> int list" where
  "dbscan_dfs is_core neighborhoods label_num i stack labels =
     (if i < length labels \<and> labels ! i = -1
      then (let labels' = labels[i := int label_num];
                stack' = (if is_core ! i
                          then rev (filter (\<lambda>v. labels' ! v = -1) (neighborhoods ! i)) @ stack
                          else stack)
            in case stack' of
                 [] \<Rightarrow> labels'
               | v # rest \<Rightarrow> dbscan_dfs is_core neighborhoods label_num v rest labels')
      else (case stack of
              [] \<Rightarrow> labels
            | v # rest \<Rightarrow> dbscan_dfs is_core neighborhoods label_num v rest labels))"
  by pat_completeness auto
termination
  by (relation "measures [\<lambda>(c, n, l, i, s, labels). unlabelled labels,
                          \<lambda>(c, n, l, i, s, labels). length s]")
     (auto simp: unlabelled_update)

declare dbscan_dfs.simps [simp del]

text \<open>
  Modelled from the spec: the scan of the clustering over the points in input order. A
  core point without a label starts a new cluster, numbered from 0.
\<close>

fun dbscan_inner ::
  "bool list \<Rightarrow> nat list list \<Rightarrow> nat list \<Rightarrow> nat \<Rightarrow> int list \<Rightarrow> int list" where
  "dbscan_inner is_core neighborhoods [] label_num labels = labels"
| "dbscan_inner is_core neighborhoods (i # rest) label_num labels =
     (if labels ! i \<noteq> -1 \<or> \<not> is_core ! i
      then dbscan_inner is_core neighborhoods rest label_num labels
      else dbscan_inner is_core neighborhoods rest (label_num + 1)
             (dbscan_dfs is_core neighborhoods label_num i [] labels))"

text \<open>
  Modelled from the spec: \<^verbatim>\<open>fit_predict\<close>. A point is a core point when its neighbourhood, itself
  included, has at least \<^verbatim>\<open>min_samples\<close> points; all labels start as noise.
\<close>

definition dbscan_fit_predict ::
  "(real \<Rightarrow> real list list \<Rightarrow> nat list list) \<Rightarrow> real \<Rightarrow> nat \<Rightarrow> real list list \<Rightarrow> int list" where
  "dbscan_fit_predict radius_neighbors eps min_samples X =
     (let neighborhoods = radius_neighbors eps X;
          n_neighbors = map length neighborhoods;
          labels = replicate (length X) (-1);
          core_samples = map (\<lambda>n. min_samples \<le> n) n_neighbors
      in dbscan_inner core_samples neighborhoods [0..<length X] 0 labels)"

subsection \<open>Predicates on a labelling\<close>








section \<open>The detectors\<close>

text \<open>
  The data frame built from a position history has one row for each sample, with the
  columns \<^verbatim>\<open>lat\<close>, \<^verbatim>\<open>lon\<close>, \<^verbatim>\<open>alt\<close>, \<^verbatim>\<open>vel\<close>, \<^verbatim>\<open>timestamp\<close> copied from it: it is kept as
  the list of the samples.
\<close>

definition exceeds :: "real option \<Rightarrow> real option \<Rightarrow> real option \<Rightarrow> bool" where
  "exceeds c m s =
     (case (c, m, s) of (Some c', Some m', Some s') \<Rightarrow> \<bar>c' - m'\<bar> > 2 * s' | _ \<Rightarrow> False)"

definition velocity_threat :: "int \<Rightarrow> SatellitePosition \<Rightarrow> real option \<Rightarrow> ThreatEvent" where
  "velocity_threat sat_id row c =
     \<lparr>ev_id = [Lit ''VEL_ANOMALY_'', IntArg sat_id, Lit ''_'', IntArg (py_int (timestamp row))],
      ev_timestamp = timestamp row,
      source_lat = latitude row,
      source_lon = longitude row,
      target_lat = latitude row,
      target_lon = longitude row,
      threat_type = ''VELOCITY_ANOMALY'',
      severity = ''MEDIUM'',
      ev_satellite_id = Some sat_id,
      description = [Lit ''Unusual velocity change detected: '',
                     (case c of Some d \<Rightarrow> FixArg 2 d | None \<Rightarrow> Lit ''nan''),
                     Lit '' km/s'']\<rparr>"

definition detect_velocity_anomalies :: "SatellitePosition list \<Rightarrow> int \<Rightarrow> ThreatEvent list" where
  "detect_velocity_anomalies df sat_id =
     (if length df < 5 then []
      else let vel_change = series_diff (map velocity df);
               mean_change = series_mean vel_change;
               std_change = series_std vel_change;
               anomalies = filter (\<lambda>(row, c). exceeds c mean_change std_change) (zip df vel_change)
           in map (\<lambda>(row, c). velocity_threat sat_id row c) anomalies)"

definition trajectory_threat :: "int \<Rightarrow> SatellitePosition \<Rightarrow> ThreatEvent" where
  "trajectory_threat sat_id row =
     \<lparr>ev_id = [Lit ''TRAJ_ANOMALY_'', IntArg sat_id, Lit ''_'', IntArg (py_int (timestamp row))],
      ev_timestamp = timestamp row,
      source_lat = latitude row,
      source_lon = longitude row,
      target_lat = latitude row,
      target_lon = longitude row,
      threat_type = ''TRAJECTORY_ANOMALY'',
      severity = ''HIGH'',
      ev_satellite_id = Some sat_id,
      description = [Lit ''Anomalous trajectory detected at position ('',
                     FixArg 2 (latitude row), Lit '', '', FixArg 2 (longitude row), Lit '')'']\<rparr>"

definition detect_trajectory_anomalies ::
  "(real \<Rightarrow> real list list \<Rightarrow> nat list list) \<Rightarrow> SatellitePosition list \<Rightarrow> int
     \<Rightarrow> ThreatEvent list" where
  "detect_trajectory_anomalies radius_neighbors df sat_id =
     (if length df < 10 then []
      else let features = map (\<lambda>row. [latitude row, longitude row, altitude row]) df;
               features_scaled = fit_transform features;
               clusters = dbscan_fit_predict radius_neighbors 0.5 3 features_scaled;
               anomaly_rows = map fst (filter (\<lambda>(row, c). c = -1) (zip df clusters))
           in map (trajectory_threat sat_id) anomaly_rows)"

definition proximity_threat ::
  "int \<Rightarrow> SatellitePosition \<Rightarrow> int \<Rightarrow> SatellitePosition \<Rightarrow> real \<Rightarrow> ThreatEvent" where
  "proximity_threat sat_id current_pos other_sat_id other_pos distance =
     \<lparr>ev_id = [Lit ''PROXIMITY_THREAT_'', IntArg sat_id, Lit ''_'', IntArg other_sat_id, Lit ''_'',
               IntArg (py_int (timestamp current_pos))],
      ev_timestamp = timestamp current_pos,
      source_lat = latitude current_pos,
      source_lon = longitude current_pos,
      target_lat = latitude other_pos,
      target_lon = longitude other_pos,
      threat_type = ''PROXIMITY_THREAT'',
      severity = ''CRITICAL'',
      ev_satellite_id = Some sat_id,
      description = [Lit ''Collision risk with satellite '', IntArg other_sat_id, Lit '': '',
                     FixArg 1 distance, Lit ''km separation'']\<rparr>"

definition detect_proximity_threats ::
  "ThreatAnalyzer \<Rightarrow> int \<Rightarrow> SatellitePosition \<Rightarrow> ThreatEvent list" where
  "detect_proximity_threats st sat_id current_pos =
     concat (map (\<lambda>(other_sat_id, pos_history).
        if other_sat_id = sat_id \<or> pos_history = [] then []
        else let other_pos = last pos_history;
                 distance = calculate_3d_distance current_pos other_pos
             in if distance < 100
                then [proximity_threat sat_id current_pos other_sat_id other_pos distance]
                else [])
       (satellite_positions st))"

section \<open>The orchestrator\<close>

text \<open>
  The source iterates over the stored dictionary and never reads its argument
  \<^verbatim>\<open>positions\<close>; the model keeps the argument. The first argument is the neighbour search
  of the clustering library.
\<close>

definition analyze_satellite ::
  "(real \<Rightarrow> real list list \<Rightarrow> nat list list) \<Rightarrow> ThreatAnalyzer \<Rightarrow> int
     \<Rightarrow> SatellitePosition list \<Rightarrow> ThreatEvent list" where
  "analyze_satellite radius_neighbors st sat_id pos_history =
     (if length pos_history < 10 then []
      else let df = last_n 50 pos_history
           in detect_velocity_anomalies df sat_id
              @ detect_trajectory_anomalies radius_neighbors df sat_id
              @ detect_proximity_threats st sat_id (last pos_history))"

definition analyze_satellite_anomalies ::
  "(real \<Rightarrow> real list list \<Rightarrow> nat list list) \<Rightarrow> ThreatAnalyzer \<Rightarrow> SatellitePosition list
     \<Rightarrow> ThreatEvent list" where
  "analyze_satellite_anomalies radius_neighbors st positions =
     concat (map (\<lambda>(sat_id, pos_history).
                    analyze_satellite radius_neighbors st sat_id pos_history)
               (satellite_positions st))"

section \<open>Threat zones\<close>

record ThreatZone =
  zone_id :: fstring
  center_lat :: real
  center_lon :: real
  radius :: int
  zone_severity :: string
  threat_count :: nat
  dominant_threat :: string

definition severity_scores :: "string \<Rightarrow> real option" where
  "severity_scores = map_of [(''LOW'', 1), (''MEDIUM'', 2), (''HIGH'', 3), (''CRITICAL'', 4)]"

definition severity_bucket :: "real option \<Rightarrow> string" where
  "severity_bucket avg_severity =
     (case avg_severity of
        None \<Rightarrow> ''CRITICAL''
      | Some a \<Rightarrow> if a < 1.5 then ''LOW'' else if a < 2.5 then ''MEDIUM''
                  else if a < 3.5 then ''HIGH'' else ''CRITICAL'')"

definition cluster_members :: "'a list \<Rightarrow> int list \<Rightarrow> int \<Rightarrow> 'a list" where
  "cluster_members df clusters cluster_id =
     map fst (filter (\<lambda>(t, c). c = cluster_id) (zip df clusters))"

definition threat_zone :: "ThreatEvent list \<Rightarrow> int list \<Rightarrow> int \<Rightarrow> ThreatZone" where
  "threat_zone threat_df clusters cluster_id =
     (let cluster_threats = cluster_members threat_df clusters cluster_id;
          center_lat = column_mean (map source_lat cluster_threats);
          center_lon = column_mean (map source_lon cluster_threats);
          avg_severity = series_mean (map (\<lambda>t. severity_scores (severity t)) cluster_threats);
          zone_severity = severity_bucket avg_severity
      in \<lparr>zone_id = [Lit ''ZONE_'', IntArg cluster_id],
          center_lat = center_lat,
          center_lon = center_lon,
          radius = 500,
          zone_severity = zone_severity,
          threat_count = length cluster_threats,
          dominant_threat = hd (series_mode (map threat_type cluster_threats))\<rparr>)"

definition generate_threat_zones ::
  "(real \<Rightarrow> real list list \<Rightarrow> nat list list) \<Rightarrow> ThreatAnalyzer \<Rightarrow> ThreatZone list" where
  "generate_threat_zones radius_neighbors st =
     (let threat_df = last_n 100 (threat_events st)
      in if length threat_df < 3 then []
         else let features = map (\<lambda>t. [source_lat t, source_lon t]) threat_df;
                  clusters = dbscan_fit_predict radius_neighbors 5 3 features
              in map (threat_zone threat_df clusters)
                   (filter (\<lambda>cluster_id. cluster_id \<noteq> -1) (sort (remdups clusters))))"

section \<open>Communication paths\<close>

record CommunicationPath =
  path_id :: fstring
  source_id :: int
  target_id :: int
  path_source_lat :: real
  path_source_lon :: real
  path_target_lat :: real
  path_target_lon :: real
  distance :: real
  quality :: string
  active :: bool

text \<open>The pairs \<open>(xs ! i, xs ! j)\<close> with \<open>i < j\<close>, in the order of the two nested loops.\<close>

fun index_pairs :: "'a list \<Rightarrow> ('a \<times> 'a) list" where
  "index_pairs [] = []"
| "index_pairs (x # xs) = map (Pair x) xs @ index_pairs xs"

definition communication_path ::
  "int \<Rightarrow> SatellitePosition \<Rightarrow> int \<Rightarrow> SatellitePosition \<Rightarrow> real \<Rightarrow> CommunicationPath" where
  "communication_path sat1_id pos1 sat2_id pos2 d =
     \<lparr>path_id = [Lit ''LINK_'', IntArg sat1_id, Lit ''_'', IntArg sat2_id],
      source_id = sat1_id,
      target_id = sat2_id,
      path_source_lat = latitude pos1,
      path_source_lon = longitude pos1,
      path_target_lat = latitude pos2,
      path_target_lon = longitude pos2,
      distance = d,
      quality = (if d < 500 then ''EXCELLENT'' else if d < 1000 then ''GOOD'' else ''POOR''),
      active = True\<rparr>"

text \<open>
  \<^verbatim>\<open>current_positions\<close> holds the latest sample of every satellite with a history that is not
  empty, in the order of the store; the loops read it back under its own keys, so each
  pair of keys comes with its two samples.
\<close>

definition current_positions :: "ThreatAnalyzer \<Rightarrow> (int \<times> SatellitePosition) list" where
  "current_positions st =
     map (\<lambda>(sat_id, pos_history). (sat_id, last pos_history))
       (filter (\<lambda>(sat_id, pos_history). pos_history \<noteq> []) (satellite_positions st))"

definition pair_path ::
  "(int \<times> SatellitePosition) \<times> (int \<times> SatellitePosition) \<Rightarrow> CommunicationPath list" where
  "pair_path pr =
     (let sat1_id = fst (fst pr); sat2_id = fst (snd pr);
          pos1 = snd (fst pr); pos2 = snd (snd pr);
          d = calculate_3d_distance pos1 pos2
      in if d < 2000 then [communication_path sat1_id pos1 sat2_id pos2 d] else [])"

definition generate_communication_paths :: "ThreatAnalyzer \<Rightarrow> CommunicationPath list" where
  "generate_communication_paths st =
     concat (map pair_path (index_pairs (current_positions st)))"

section \<open>Selections used in the statements\<close>

text \<open>A pair of entries that joins the satellites \<open>a\<close> and \<open>b\<close>, in either order.\<close>

definition joins :: "int \<Rightarrow> int \<Rightarrow> (int \<times> 'a) \<times> (int \<times> 'a) \<Rightarrow> bool" where
  "joins a b pr = ({fst (fst pr), fst (snd pr)} = {a, b})"

text \<open>The velocity anomalies reported for one satellite among a list of events.\<close>

definition velocity_events_of :: "int \<Rightarrow> ThreatEvent list \<Rightarrow> ThreatEvent list" where
  "velocity_events_of sid es =
     filter (\<lambda>e. threat_type e = ''VELOCITY_ANOMALY'' \<and> ev_satellite_id e = Some sid) es"

section \<open>The zone summary in the words of the specification\<close>

text \<open>The rank table: LOW = 1, MEDIUM = 2, HIGH = 3, CRITICAL = 4.\<close>

definition spec_severity_rank :: "string \<Rightarrow> real" where
  "spec_severity_rank s =
     (if s = ''LOW'' then 1 else if s = ''MEDIUM'' then 2 else if s = ''HIGH'' then 3 else 4)"

text \<open>The buckets: LOW below 1.5, MEDIUM below 2.5, HIGH below 3.5, else CRITICAL.\<close>

definition spec_severity_bucket :: "real \<Rightarrow> string" where
  "spec_severity_bucket a =
     (if a < 1.5 then ''LOW'' else if a < 2.5 then ''MEDIUM''
      else if a < 3.5 then ''HIGH'' else ''CRITICAL'')"

text \<open>
  The tie-break in the words of the specification: the first kind, in the order of the member
  events, among the most frequent kinds.
\<close>

definition spec_first_encountered :: "string list \<Rightarrow> string" where
  "spec_first_encountered kinds =
     hd (filter (\<lambda>k. \<forall>k'\<in>set kinds. count_list kinds k' \<le> count_list kinds k) kinds)"

section \<open>Example data\<close>

definition sample :: "int \<Rightarrow> nat \<Rightarrow> SatellitePosition" where
  "sample sid i = \<lparr>satellite_id = sid, latitude = 0, longitude = 0, altitude = 500,
     velocity = 7.5, timestamp = real i\<rparr>"

text \<open>A satellite above latitude 0, longitude 0 at a given altitude.\<close>

definition sat_at :: "int \<Rightarrow> real \<Rightarrow> SatellitePosition" where
  "sat_at sid alt = \<lparr>satellite_id = sid, latitude = 0, longitude = 0, altitude = alt,
     velocity = 7.5, timestamp = 0\<rparr>"

text \<open>A store with satellites 1 and 2, each with \<open>n\<close> samples at its altitude.\<close>

definition two_sats :: "nat \<Rightarrow> real \<Rightarrow> real \<Rightarrow> ThreatAnalyzer" where
  "two_sats n a1 a2 =
     \<lparr>threat_events = [],
      satellite_positions = [(1, replicate n (sat_at 1 a1)), (2, replicate n (sat_at 2 a2))]\<rparr>"

text \<open>
  Satellite 7 with 12 samples of speed 7.5 km/s, the 6th at 9.0 km/s; sample \<open>i\<close> (from 0) is
  at longitude \<open>i\<close>.
\<close>

definition spike_sample :: "nat \<Rightarrow> SatellitePosition" where
  "spike_sample i = \<lparr>satellite_id = 7, latitude = 0, longitude = real i, altitude = 500,
     velocity = (if i = 5 then 9.0 else 7.5), timestamp = real i\<rparr>"

definition spike_store :: ThreatAnalyzer where
  "spike_store = \<lparr>threat_events = [], satellite_positions = [(7, map spike_sample [0..<12])]\<rparr>"

text \<open>
  Four events on the equator, at latitudes 0, 3, 0, 3; two velocity anomalies of severity
  MEDIUM and two proximity threats of severity CRITICAL, in turn.
\<close>

definition zone_event :: "nat \<Rightarrow> ThreatEvent" where
  "zone_event i =
     \<lparr>ev_id = [Lit ''SIM_'', IntArg (int i)],
      ev_timestamp = real i,
      source_lat = (if even i then 0 else 3),
      source_lon = 0,
      target_lat = 0,
      target_lon = 0,
      threat_type = (if even i then ''VELOCITY_ANOMALY'' else ''PROXIMITY_THREAT''),
      severity = (if even i then ''MEDIUM'' else ''CRITICAL''),
      ev_satellite_id = Some 1,
      description = [Lit ''Simulated event'']\<rparr>"

definition zone_store :: ThreatAnalyzer where
  "zone_store = \<lparr>threat_events = [zone_event 0, zone_event 1, zone_event 2, zone_event 3],
                  satellite_positions = []\<rparr>"




section \<open>Properties of the store\<close>

lemma last_n_length: "length (last_n n xs) = min n (length xs)"
  by (simp add: last_n_def)

lemma last_n_all: "length xs \<le> n \<Longrightarrow> last_n n xs = xs"
  by (simp add: last_n_def)

lemma last_n_snoc: "last_n (Suc n) (xs @ [x]) = last_n n xs @ [x]"
  by (simp add: last_n_def Suc_diff_le)

lemma last_n_last_n_snoc:
  "0 < n \<Longrightarrow> last_n n (last_n n xs @ [x]) = last_n n (xs @ [x])"
  by (cases "length xs \<le> n") (auto simp: last_n_def Suc_diff_le)

lemma distance_sym: "calculate_3d_distance a b = calculate_3d_distance b a"
  by (simp add: calculate_3d_distance_def Let_def power2_commute)

text \<open>
  C9. The computed 3D distance is symmetric: for all position samples \<open>A\<close> and \<open>B\<close>,
  \<open>distance(A, B) = distance(B, A)\<close> (floats read as reals).
\<close>

theorem C9_distance_symmetric:
  "calculate_3d_distance A B = calculate_3d_distance B A"
  by (rule distance_sym)

lemma map_of_update_position:
  "map_of (satellite_positions (update_satellite_position st p)) =
     (map_of (satellite_positions st))(satellite_id p \<mapsto> last_n 100 (history st (satellite_id p) @ [p]))"
proof (cases "satellite_id p \<in> fst ` set (satellite_positions st)")
  case True
  then show ?thesis
    by (auto simp: update_satellite_position_def Let_def history_def update_conv' last_n_all)
next
  case False
  then have "map_of (satellite_positions st) (satellite_id p) = None"
    by (simp add: map_of_eq_None_iff)
  with False show ?thesis
    by (auto simp: update_satellite_position_def Let_def history_def update_conv' last_n_all)
qed

lemma history_update_position:
  "history (update_satellite_position st p) sid =
     (if satellite_id p = sid then last_n 100 (history st sid @ [p]) else history st sid)"
  by (simp add: history_def map_of_update_position)

lemma distinct_update_position:
  "distinct (map fst (satellite_positions st)) \<Longrightarrow>
   distinct (map fst (satellite_positions (update_satellite_position st p)))"
  by (simp add: update_satellite_position_def Let_def distinct_update)

lemma events_update_position [simp]:
  "threat_events (update_satellite_position st p) = threat_events st"
  by (simp add: update_satellite_position_def Let_def)

lemma positions_add_event [simp]:
  "satellite_positions (add_threat_event st e) = satellite_positions st"
  by (simp add: add_threat_event_def Let_def)

lemma events_add_event:
  "threat_events (add_threat_event st e) = last_n 1000 (threat_events st @ [e])"
  by (simp add: add_threat_event_def Let_def last_n_all)

lemma history_add_event [simp]: "history (add_threat_event st e) sid = history st sid"
  by (simp add: history_def)

lemma history_foldl:
  "history st sid = last_n 100 H \<Longrightarrow>
   history (foldl apply_op st ops) sid = last_n 100 (H @ recorded_positions sid ops)"
proof (induction ops arbitrary: st H)
  case Nil
  then show ?case by simp
next
  case (Cons x ops)
  show ?case
  proof (cases x)
    case (RecordPosition p)
    show ?thesis
    proof (cases "satellite_id p = sid")
      case True
      have "history (apply_op st x) sid = last_n 100 ((H @ [p]))"
        using Cons.prems True RecordPosition
        by (simp add: history_update_position last_n_last_n_snoc)
      from Cons.IH [OF this] show ?thesis using True RecordPosition by simp
    next
      case False
      have "history (apply_op st x) sid = last_n 100 H"
        using Cons.prems False RecordPosition by (simp add: history_update_position)
      from Cons.IH [OF this] show ?thesis using False RecordPosition by simp
    qed
  next
    case (RecordEvent e)
    have "history (apply_op st x) sid = last_n 100 H"
      using Cons.prems RecordEvent by simp
    from Cons.IH [OF this] show ?thesis using RecordEvent by simp
  qed
qed

lemma events_foldl:
  "threat_events st = last_n 1000 E \<Longrightarrow>
   threat_events (foldl apply_op st ops) = last_n 1000 (E @ recorded_events ops)"
proof (induction ops arbitrary: st E)
  case Nil
  then show ?case by simp
next
  case (Cons x ops)
  show ?case
  proof (cases x)
    case (RecordPosition p)
    have "threat_events (apply_op st x) = last_n 1000 E"
      using Cons.prems RecordPosition by simp
    from Cons.IH [OF this] show ?thesis using RecordPosition by simp
  next
    case (RecordEvent e)
    have "threat_events (apply_op st x) = last_n 1000 (E @ [e])"
      using Cons.prems RecordEvent by (simp add: events_add_event last_n_last_n_snoc)
    from Cons.IH [OF this] show ?thesis using RecordEvent by simp
  qed
qed

lemma distinct_foldl:
  "distinct (map fst (satellite_positions st)) \<Longrightarrow>
   distinct (map fst (satellite_positions (foldl apply_op st ops)))"
proof (induction ops arbitrary: st)
  case Nil
  then show ?case by simp
next
  case (Cons x ops)
  then show ?case by (cases x) (simp_all add: distinct_update_position)
qed

lemma history_run_ops: "history (run_ops ops) sid = last_n 100 (recorded_positions sid ops)"
  using history_foldl [of init sid "[]" ops]
  by (simp add: run_ops_def init_def history_def last_n_def)

lemma events_run_ops: "threat_events (run_ops ops) = last_n 1000 (recorded_events ops)"
  using events_foldl [of init "[]" ops]
  by (simp add: run_ops_def init_def last_n_def)

lemma distinct_run_ops: "distinct (map fst (satellite_positions (run_ops ops)))"
  using distinct_foldl [of init ops] by (simp add: run_ops_def init_def)

lemma entry_is_history:
  "distinct (map fst (satellite_positions st)) \<Longrightarrow> (sid, h) \<in> set (satellite_positions st) \<Longrightarrow>
   history st sid = h"
  by (simp add: history_def)

lemma recorded_positions_all:
  "\<forall>p\<in>set ps. satellite_id p = sid \<Longrightarrow> recorded_positions sid (map RecordPosition ps) = ps"
  by (induction ps) auto

text \<open>
  C7. After any sequence of record operations every position history has at most 100 entries
  and the event history at most 1000, the oldest evicted first: a history is the last 100
  samples recorded for its satellite, in recording order, and the event history the last
  1000 events recorded. After 105 positions recorded for one satellite its history has
  exactly 100 entries, the 100 most recent ones in order.
\<close>

theorem C7_bounded_fifo_histories:
  "(\<forall>(k, h) \<in> set (satellite_positions (run_ops ops)). length h \<le> 100)
   \<and> length (threat_events (run_ops ops)) \<le> 1000
   \<and> history (run_ops ops) sid = last_n 100 (recorded_positions sid ops)
   \<and> threat_events (run_ops ops) = last_n 1000 (recorded_events ops)
   \<and> (length ps = 105 \<and> (\<forall>p\<in>set ps. satellite_id p = sid) \<longrightarrow>
        length (history (run_ops (map RecordPosition ps)) sid) = 100
        \<and> history (run_ops (map RecordPosition ps)) sid = drop 5 ps)"
proof -
  have "length h \<le> 100" if "(k, h) \<in> set (satellite_positions (run_ops ops))" for k h
  proof -
    have "history (run_ops ops) k = h"
      using that distinct_run_ops by (rule entry_is_history [rotated])
    moreover have "length (history (run_ops ops) k) \<le> 100"
      by (simp add: history_run_ops last_n_length)
    ultimately show ?thesis by simp
  qed
  moreover have "length (threat_events (run_ops ops)) \<le> 1000"
    by (simp add: events_run_ops last_n_length)
  moreover have "history (run_ops (map RecordPosition ps)) sid = drop 5 ps"
    and "length (history (run_ops (map RecordPosition ps)) sid) = 100"
    if "length ps = 105" "\<forall>p\<in>set ps. satellite_id p = sid"
    using that by (simp_all add: history_run_ops recorded_positions_all last_n_def)
  ultimately show ?thesis
    by (auto simp: history_run_ops events_run_ops)
qed

theorem C7_witness:
  "length (map (sample 1) [0..<105]) = 105
   \<and> length (history (run_ops (map RecordPosition (map (sample 1) [0..<105]))) 1) = 100
   \<and> history (run_ops (map RecordPosition (map (sample 1) [0..<105]))) 1 = map (sample 1) [5..<105]"
  using C7_bounded_fifo_histories [of "[]" 1 "map (sample 1) [0..<105]"]
  by (simp add: sample_def drop_map del: upt_Suc)

section \<open>Minimum sample counts\<close>

text \<open>
  C5. Below their minimum counts the operations return an empty sequence: the velocity
  detector on fewer than 5 samples, the trajectory detector on fewer than 10 samples, the
  zone generation on fewer than 3 events in its window.
\<close>

theorem C5_below_minimum_empty:
  "(length df < 5 \<longrightarrow> detect_velocity_anomalies df sat_id = [])
   \<and> (length df' < 10 \<longrightarrow> detect_trajectory_anomalies search df' sat_id = [])
   \<and> (length (last_n 100 (threat_events st)) < 3 \<longrightarrow> generate_threat_zones search st = [])"
  by (simp add: detect_velocity_anomalies_def detect_trajectory_anomalies_def
      generate_threat_zones_def)

theorem C5_witness:
  "length (map (sample 7) [0..<4]) < 5
   \<and> detect_velocity_anomalies (map (sample 7) [0..<4]) 7 = []
   \<and> length (map (sample 7) [0..<9]) < 10
   \<and> detect_trajectory_anomalies exact_radius_neighbors (map (sample 7) [0..<9]) 7 = []
   \<and> length (last_n 100 (threat_events (add_threat_event init (velocity_threat 7 (sample 7 0) None)))) < 3
   \<and> generate_threat_zones exact_radius_neighbors (add_threat_event init (velocity_threat 7 (sample 7 0) None)) = []"
  using C5_below_minimum_empty [where df = "map (sample 7) [0..<4]" and sat_id = 7
      and df' = "map (sample 7) [0..<9]" and search = exact_radius_neighbors
      and st = "add_threat_event init (velocity_threat 7 (sample 7 0) None)"]
  by (simp add: events_add_event init_def last_n_def)

section \<open>The velocity detector on a constant series\<close>

lemma series_diff_replicate:
  "series_diff (replicate (Suc n) v) = None # replicate n (Some 0)"
proof -
  have "zip (replicate (Suc n) v) (replicate n v) = replicate n (v, v)"
    unfolding zip_replicate by simp
  then have "zip (v # replicate n v) (replicate n v) = replicate n (v, v)"
    by simp
  then show ?thesis by simp
qed

lemma dropna_Cons [simp]:
  "dropna (None # xs) = dropna xs" "dropna (Some v # xs) = v # dropna xs" "dropna [] = []"
  by (simp_all add: dropna_def)

lemma dropna_replicate [simp]: "dropna (replicate n (Some v)) = replicate n v"
  by (induction n) simp_all

lemma sum_list_replicate_zero [simp]: "sum_list (replicate n (0::real)) = 0"
  by (induction n) simp_all

lemma map_constant: "\<forall>r\<in>set xs. f r = v \<Longrightarrow> map f xs = replicate (length xs) v"
  by (induction xs) simp_all

lemma exceeds_None [simp]: "\<not> exceeds None m s"
  by (simp add: exceeds_def)

lemma constant_series_diff:
  assumes "\<forall>r\<in>set df. velocity r = v" "df \<noteq> []"
  shows "series_diff (map velocity df) = None # replicate (length df - 1) (Some 0)"
proof -
  from assms(2) obtain n where n: "length df = Suc n" by (cases df) auto
  with assms(1) show ?thesis
    using map_constant [of df velocity v] series_diff_replicate [of n v] by simp
qed

text \<open>
  C8. On a window whose speeds are all equal the velocity detector emits nothing: the first
  differences are all zero, their standard deviation is zero, and no difference exceeds the
  threshold.
\<close>

theorem C8_constant_speed_no_anomaly:
  assumes "\<forall>r\<in>set df. velocity r = v"
  shows "detect_velocity_anomalies df sat_id = []
         \<and> (\<forall>c\<in>set (dropna (series_diff (map velocity df))). c = 0)
         \<and> (5 \<le> length df \<longrightarrow> series_std (series_diff (map velocity df)) = Some 0)
         \<and> (\<forall>c\<in>set (series_diff (map velocity df)).
              \<not> exceeds c (series_mean (series_diff (map velocity df)))
                           (series_std (series_diff (map velocity df))))"
proof (cases "df = []")
  case True
  then show ?thesis by (simp add: detect_velocity_anomalies_def)
next
  case False
  let ?d = "series_diff (map velocity df)"
  have d: "?d = None # replicate (length df - 1) (Some 0)"
    using assms False by (rule constant_series_diff)
  have zero: "\<forall>c\<in>set (dropna ?d). c = 0" by (simp add: d)
  have std: "series_std ?d = Some 0" if "5 \<le> length df"
    using that by (simp add: d series_std_def Let_def)
  have no: "\<not> exceeds c (series_mean ?d) (series_std ?d)" if "c \<in> set ?d" for c
  proof (cases c)
    case None
    then show ?thesis by simp
  next
    case (Some x)
    with that have "x = 0" by (auto simp: d)
    then show ?thesis using Some
      by (auto simp: exceeds_def d series_mean_def series_std_def Let_def split: option.splits)
  qed
  have "filter (\<lambda>(row, c). exceeds c (series_mean ?d) (series_std ?d)) (zip df ?d) = []"
    using no by (auto simp: filter_empty_conv dest: set_zip_rightD)
  then have "detect_velocity_anomalies df sat_id = []"
    by (simp add: detect_velocity_anomalies_def Let_def)
  with zero std no show ?thesis by blast
qed

theorem C8_witness:
  "length (map (sample 7) [0..<12]) = 12
   \<and> detect_velocity_anomalies (map (sample 7) [0..<12]) 7 = []
   \<and> series_std (series_diff (map velocity (map (sample 7) [0..<12]))) = Some 0"
proof -
  have h: "\<forall>r\<in>set (map (sample 7) [0..<12]). velocity r = 7.5"
    by (simp add: sample_def)
  from C8_constant_speed_no_anomaly [OF h, of 7] h show ?thesis by simp
qed

section \<open>Distances of the example satellites\<close>

lemma distance_above_origin:
  assumes "latitude a = 0" "longitude a = 0" "latitude b = 0" "longitude b = 0"
  shows "calculate_3d_distance a b = \<bar>altitude b - altitude a\<bar>"
  using assms by (simp add: calculate_3d_distance_def Let_def radians_def)

lemma distance_sat_at [simp]: "calculate_3d_distance (sat_at i x) (sat_at j y) = \<bar>y - x\<bar>"
  by (simp add: distance_above_origin sat_at_def)

section \<open>Properties of the communication paths\<close>

lemma filter_key_distinct:
  "distinct (map fst xs) \<Longrightarrow> (b, pb) \<in> set xs \<Longrightarrow> filter (\<lambda>y. fst y = b) xs = [(b, pb)]"
proof (induction xs)
  case Nil
  then show ?case by simp
next
  case (Cons x xs)
  show ?case
  proof (cases "fst x = b")
    case True
    with Cons.prems have "x = (b, pb)" by (cases x) (auto simp: image_iff)
    moreover have "filter (\<lambda>y. fst y = b) xs = []"
      using Cons.prems True by (auto simp: filter_empty_conv image_iff)
    ultimately show ?thesis by simp
  next
    case False
    with Cons show ?thesis by auto
  qed
qed

lemma joins_commute: "joins a b = joins b a"
  by (simp add: joins_def fun_eq_iff insert_commute)

lemma index_pairs_members:
  "(x, y) \<in> set (index_pairs xs) \<Longrightarrow> x \<in> set xs \<and> y \<in> set xs"
  by (induction xs) auto

lemma index_pairs_no_key:
  "a \<notin> fst ` set xs \<Longrightarrow> filter (joins a b) (index_pairs xs) = []"
  by (auto simp: filter_empty_conv joins_def doubleton_eq_iff dest!: index_pairs_members)

lemma index_pairs_joins:
  assumes "distinct (map fst xs)" "(a, pa) \<in> set xs" "(b, pb) \<in> set xs" "a \<noteq> b"
  shows "filter (joins a b) (index_pairs xs) = [((a, pa), (b, pb))]
         \<or> filter (joins a b) (index_pairs xs) = [((b, pb), (a, pa))]"
  using assms
proof (induction xs)
  case Nil
  then show ?case by simp
next
  case (Cons x xs)
  have dist: "distinct (map fst xs)" and fresh: "fst x \<notin> fst ` set xs"
    using Cons.prems(1) by auto
  consider "fst x = a" | "fst x = b" | "fst x \<noteq> a" "fst x \<noteq> b" by blast
  then show ?case
  proof cases
    case 1
    with Cons.prems fresh have x: "x = (a, pa)" and b: "(b, pb) \<in> set xs"
      by (auto simp: image_iff)
    have "filter (joins a b) (map (Pair x) xs) = map (Pair x) (filter (\<lambda>y. fst y = b) xs)"
      using \<open>a \<noteq> b\<close> by (auto simp: filter_map o_def joins_def x doubleton_eq_iff intro!: filter_cong)
    moreover have "filter (joins a b) (index_pairs xs) = []"
      using fresh 1 by (intro index_pairs_no_key) simp
    ultimately show ?thesis
      using filter_key_distinct [OF dist b] x by simp
  next
    case 2
    with Cons.prems fresh have x: "x = (b, pb)" and a: "(a, pa) \<in> set xs"
      by (auto simp: image_iff)
    have "filter (joins a b) (map (Pair x) xs) = map (Pair x) (filter (\<lambda>y. fst y = a) xs)"
      using \<open>a \<noteq> b\<close> by (auto simp: filter_map o_def joins_def x doubleton_eq_iff intro!: filter_cong)
    moreover have "filter (joins b a) (index_pairs xs) = []"
      using fresh 2 by (intro index_pairs_no_key) simp
    then have "filter (joins a b) (index_pairs xs) = []"
      by (simp add: joins_commute [of a b])
    ultimately show ?thesis
      using filter_key_distinct [OF dist a] x by simp
  next
    case 3
    with Cons.prems have a: "(a, pa) \<in> set xs" and b: "(b, pb) \<in> set xs" by auto
    have "filter (joins a b) (map (Pair x) xs) = []"
      using 3 by (auto simp: filter_empty_conv joins_def doubleton_eq_iff)
    with Cons.IH [OF dist a b \<open>a \<noteq> b\<close>] show ?thesis by simp
  qed
qed

lemma filter_concat_map:
  "(\<And>x y. x \<in> set xs \<Longrightarrow> y \<in> set (f x) \<Longrightarrow> P y = Q x) \<Longrightarrow>
   filter P (concat (map f xs)) = concat (map f (filter Q xs))"
proof (induction xs)
  case Nil
  then show ?case by simp
next
  case (Cons x xs)
  have "filter P (f x) = (if Q x then f x else [])"
    using Cons.prems [of x] by (auto simp: filter_empty_conv filter_id_conv)
  moreover have "filter P (concat (map f xs)) = concat (map f (filter Q xs))"
    using Cons.prems by (intro Cons.IH) auto
  ultimately show ?case by simp
qed

lemma distinct_current_positions:
  "distinct (map fst (satellite_positions st)) \<Longrightarrow> distinct (map fst (current_positions st))"
  by (simp add: current_positions_def case_prod_beta o_def distinct_map_filter)

lemma in_current_positions:
  "(a, ha) \<in> set (satellite_positions st) \<Longrightarrow> ha \<noteq> [] \<Longrightarrow> (a, last ha) \<in> set (current_positions st)"
  by (force simp: current_positions_def)

lemma links_between:
  assumes "distinct (map fst (satellite_positions st))"
    and "(a, ha) \<in> set (satellite_positions st)" "(b, hb) \<in> set (satellite_positions st)"
    and "a \<noteq> b" "ha \<noteq> []" "hb \<noteq> []"
  shows "filter (\<lambda>p. {source_id p, target_id p} = {a, b}) (generate_communication_paths st)
           = pair_path ((a, last ha), (b, last hb))
         \<or> filter (\<lambda>p. {source_id p, target_id p} = {a, b}) (generate_communication_paths st)
           = pair_path ((b, last hb), (a, last ha))"
proof -
  let ?cp = "current_positions st"
  have "filter (\<lambda>p. {source_id p, target_id p} = {a, b}) (concat (map pair_path (index_pairs ?cp)))
        = concat (map pair_path (filter (joins a b) (index_pairs ?cp)))"
    by (rule filter_concat_map)
       (auto simp: pair_path_def joins_def communication_path_def Let_def split: if_splits)
  moreover have "filter (joins a b) (index_pairs ?cp) = [((a, last ha), (b, last hb))]
         \<or> filter (joins a b) (index_pairs ?cp) = [((b, last hb), (a, last ha))]"
    using assms by (intro index_pairs_joins distinct_current_positions in_current_positions)
  ultimately show ?thesis
    by (auto simp: generate_communication_paths_def)
qed

text \<open>
  C6. For two distinct satellites with at least one sample each and \<open>d\<close> the distance between
  their latest samples, the paths that join them are: one path, active, with distance \<open>d\<close>
  and quality EXCELLENT below 500, GOOD below 1000 and POOR from 1000, when \<open>d < 2000\<close>; none
  otherwise. At 1500 km there is one path, POOR and active; at 2500 km there is none.
\<close>

theorem C6_communication_paths:
  assumes "distinct (map fst (satellite_positions st))"
    and "(a, ha) \<in> set (satellite_positions st)" "(b, hb) \<in> set (satellite_positions st)"
    and "a \<noteq> b" "ha \<noteq> []" "hb \<noteq> []"
    and "d = calculate_3d_distance (last ha) (last hb)"
    and "links = filter (\<lambda>p. {source_id p, target_id p} = {a, b}) (generate_communication_paths st)"
  shows "(links \<noteq> [] \<longleftrightarrow> d < 2000)
         \<and> length links = (if d < 2000 then 1 else 0)
         \<and> (\<forall>p\<in>set links. active p \<and> distance p = d
               \<and> quality p = (if d < 500 then ''EXCELLENT'' else if d < 1000 then ''GOOD'' else ''POOR''))
         \<and> (d = 1500 \<longrightarrow> length links = 1 \<and> quality (hd links) = ''POOR'' \<and> active (hd links))
         \<and> (d = 2500 \<longrightarrow> links = [])"
proof -
  have d': "calculate_3d_distance (last hb) (last ha) = d"
    using assms(7) by (simp add: distance_sym)
  have d'': "calculate_3d_distance (last ha) (last hb) = d"
    using assms(7) by simp
  from links_between [OF assms(1-6)]
  consider "links = pair_path ((a, last ha), (b, last hb))"
    | "links = pair_path ((b, last hb), (a, last ha))"
    using assms(8) by auto
  then obtain p where p: "links = (if d < 2000 then [p] else [])"
      "active p" "distance p = d"
      "quality p = (if d < 500 then ''EXCELLENT'' else if d < 1000 then ''GOOD'' else ''POOR'')"
  proof cases
    case 1
    show ?thesis
      by (rule that [of "communication_path a (last ha) b (last hb) d"])
         (simp_all add: 1 pair_path_def Let_def d'' communication_path_def)
  next
    case 2
    show ?thesis
      by (rule that [of "communication_path b (last hb) a (last ha) d"])
         (simp_all add: 2 pair_path_def Let_def d' communication_path_def)
  qed
  show ?thesis
    unfolding p(1) using p(2-4) by simp
qed

theorem C6_witness:
  "calculate_3d_distance (sat_at 1 500) (sat_at 2 2000) = 1500
   \<and> length (filter (\<lambda>p. {source_id p, target_id p} = {1, 2})
               (generate_communication_paths (two_sats 1 500 2000))) = 1
   \<and> quality (hd (filter (\<lambda>p. {source_id p, target_id p} = {1, 2})
               (generate_communication_paths (two_sats 1 500 2000)))) = ''POOR''
   \<and> active (hd (filter (\<lambda>p. {source_id p, target_id p} = {1, 2})
               (generate_communication_paths (two_sats 1 500 2000))))
   \<and> calculate_3d_distance (sat_at 1 500) (sat_at 2 3000) = 2500
   \<and> filter (\<lambda>p. {source_id p, target_id p} = {1, 2})
               (generate_communication_paths (two_sats 1 500 3000)) = []"
proof -
  let ?near = "two_sats 1 500 2000" and ?far = "two_sats 1 500 3000"
  have n1: "distinct (map fst (satellite_positions ?near))"
    and n2: "(1, [sat_at 1 500]) \<in> set (satellite_positions ?near)"
    and n3: "(2, [sat_at 2 2000]) \<in> set (satellite_positions ?near)"
    by (simp_all add: two_sats_def)
  have n4: "1500 = calculate_3d_distance (last [sat_at 1 500]) (last [sat_at 2 2000])"
    by simp
  have f1: "distinct (map fst (satellite_positions ?far))"
    and f2: "(1, [sat_at 1 500]) \<in> set (satellite_positions ?far)"
    and f3: "(2, [sat_at 2 3000]) \<in> set (satellite_positions ?far)"
    by (simp_all add: two_sats_def)
  have f4: "2500 = calculate_3d_distance (last [sat_at 1 500]) (last [sat_at 2 3000])"
    by simp
  from C6_communication_paths [OF n1 n2 n3 _ _ _ n4 refl]
    C6_communication_paths [OF f1 f2 f3 _ _ _ f4 refl]
  show ?thesis by simp
qed

section \<open>The proximity detector and the orchestrator\<close>

lemma detect_proximity_threats_iff:
  "e \<in> set (detect_proximity_threats st sat_id current_pos) \<longleftrightarrow>
     (\<exists>(other_sat_id, pos_history) \<in> set (satellite_positions st).
        other_sat_id \<noteq> sat_id \<and> pos_history \<noteq> []
        \<and> calculate_3d_distance current_pos (last pos_history) < 100
        \<and> e = proximity_threat sat_id current_pos other_sat_id (last pos_history)
                (calculate_3d_distance current_pos (last pos_history)))"
  by (auto simp: detect_proximity_threats_def Let_def split: if_splits)

lemma velocity_events_satellite:
  "e \<in> set (detect_velocity_anomalies df sat_id) \<Longrightarrow>
   ev_satellite_id e = Some sat_id \<and> threat_type e = ''VELOCITY_ANOMALY''"
  by (auto simp: detect_velocity_anomalies_def Let_def velocity_threat_def split: if_splits)

lemma trajectory_events_satellite:
  "e \<in> set (detect_trajectory_anomalies search df sat_id) \<Longrightarrow>
   ev_satellite_id e = Some sat_id \<and> threat_type e = ''TRAJECTORY_ANOMALY''"
  by (auto simp: detect_trajectory_anomalies_def Let_def trajectory_threat_def split: if_splits)

lemma proximity_events_satellite:
  "e \<in> set (detect_proximity_threats st sat_id current_pos) \<Longrightarrow>
   ev_satellite_id e = Some sat_id \<and> threat_type e = ''PROXIMITY_THREAT''"
  by (auto simp: detect_proximity_threats_iff proximity_threat_def)

lemma analyze_satellite_events:
  "e \<in> set (analyze_satellite search st sat_id h) \<Longrightarrow> 10 \<le> length h \<and> ev_satellite_id e = Some sat_id"
  by (auto simp: analyze_satellite_def Let_def split: if_splits
      dest: velocity_events_satellite trajectory_events_satellite proximity_events_satellite)

lemma concat_map_filter_nonempty:
  "(\<And>x. x \<in> set xs \<Longrightarrow> \<not> P x \<Longrightarrow> f x = []) \<Longrightarrow>
   concat (map f xs) = concat (map f (filter P xs))"
  by (induction xs) auto

lemma analyze_member:
  "e \<in> set (analyze_satellite_anomalies search st positions) \<longleftrightarrow>
     (\<exists>(sat_id, h) \<in> set (satellite_positions st). e \<in> set (analyze_satellite search st sat_id h))"
  by (auto simp: analyze_satellite_anomalies_def)

text \<open>
  C1 (as amended). The analysis does not read the batch: for every satellite of the store
  with at least 10 samples, in the order of the store, it runs the velocity and trajectory
  detectors on the last 50 samples of the history and the proximity detector on the latest
  sample against the latest samples of all other satellites, and returns the concatenation
  of their events. Every event carries the id of a stored satellite with at least 10
  samples.
\<close>

theorem C1_analyze_store:
  "analyze_satellite_anomalies search st positions =
     concat (map (\<lambda>(sat_id, h).
                    detect_velocity_anomalies (last_n 50 h) sat_id
                    @ detect_trajectory_anomalies search (last_n 50 h) sat_id
                    @ detect_proximity_threats st sat_id (last h))
               (filter (\<lambda>(sat_id, h). 10 \<le> length h) (satellite_positions st)))
   \<and> analyze_satellite_anomalies search st positions = analyze_satellite_anomalies search st []
   \<and> (\<forall>e\<in>set (analyze_satellite_anomalies search st positions).
         \<exists>(sat_id, h) \<in> set (satellite_positions st).
           10 \<le> length h \<and> ev_satellite_id e = Some sat_id)
   \<and> (\<forall>e. e \<in> set (detect_proximity_threats st sat_id current_pos) \<longleftrightarrow>
         (\<exists>(other_sat_id, pos_history) \<in> set (satellite_positions st).
            other_sat_id \<noteq> sat_id \<and> pos_history \<noteq> []
            \<and> calculate_3d_distance current_pos (last pos_history) < 100
            \<and> e = proximity_threat sat_id current_pos other_sat_id (last pos_history)
                    (calculate_3d_distance current_pos (last pos_history))))"
proof -
  let ?f = "\<lambda>(sat_id, h). analyze_satellite search st sat_id h"
  have "concat (map ?f (satellite_positions st))
        = concat (map ?f (filter (\<lambda>(sat_id, h). 10 \<le> length h) (satellite_positions st)))"
    by (rule concat_map_filter_nonempty) (auto simp: analyze_satellite_def)
  also have "\<dots> = concat (map (\<lambda>(sat_id, h).
                    detect_velocity_anomalies (last_n 50 h) sat_id
                    @ detect_trajectory_anomalies search (last_n 50 h) sat_id
                    @ detect_proximity_threats st sat_id (last h))
               (filter (\<lambda>(sat_id, h). 10 \<le> length h) (satellite_positions st)))"
    by (rule arg_cong [where f = concat], rule map_cong)
       (auto simp: analyze_satellite_def Let_def)
  finally have a: "analyze_satellite_anomalies search st positions =
     concat (map (\<lambda>(sat_id, h).
                    detect_velocity_anomalies (last_n 50 h) sat_id
                    @ detect_trajectory_anomalies search (last_n 50 h) sat_id
                    @ detect_proximity_threats st sat_id (last h))
               (filter (\<lambda>(sat_id, h). 10 \<le> length h) (satellite_positions st)))"
    by (simp add: analyze_satellite_anomalies_def)
  have b: "analyze_satellite_anomalies search st positions = analyze_satellite_anomalies search st []"
    by (simp add: analyze_satellite_anomalies_def)
  have c: "\<exists>(sat_id, h) \<in> set (satellite_positions st).
           10 \<le> length h \<and> ev_satellite_id e = Some sat_id"
    if "e \<in> set (analyze_satellite_anomalies search st positions)" for e
    using that by (auto simp: analyze_member dest: analyze_satellite_events)
  from a b c detect_proximity_threats_iff show ?thesis by blast
qed

lemma two_sats_proximity:
  "\<bar>a2 - a1\<bar> < 100 \<Longrightarrow> 0 < n \<Longrightarrow>
   detect_proximity_threats (two_sats n a1 a2) 1 (sat_at 1 a1)
     = [proximity_threat 1 (sat_at 1 a1) 2 (sat_at 2 a2) \<bar>a2 - a1\<bar>]"
  by (simp add: detect_proximity_threats_def two_sats_def Let_def)

lemma two_sats_first_event:
  assumes "\<bar>a2 - a1\<bar> < 100"
  shows "proximity_threat 1 (sat_at 1 a1) 2 (sat_at 2 a2) \<bar>a2 - a1\<bar>
           \<in> set (analyze_satellite_anomalies search (two_sats 10 a1 a2) positions)"
proof -
  have "proximity_threat 1 (sat_at 1 a1) 2 (sat_at 2 a2) \<bar>a2 - a1\<bar>
          \<in> set (analyze_satellite search (two_sats 10 a1 a2) 1 (replicate 10 (sat_at 1 a1)))"
    using assms by (simp add: analyze_satellite_def Let_def two_sats_proximity)
  then show ?thesis
    unfolding analyze_member by (auto simp: two_sats_def)
qed

theorem C1_witness:
  "proximity_threat 1 (sat_at 1 500) 2 (sat_at 2 550) 50
     \<in> set (analyze_satellite_anomalies exact_radius_neighbors (two_sats 10 500 550) [sat_at 2 550])
   \<and> (\<exists>(sat_id, h) \<in> set (satellite_positions (two_sats 10 500 550)).
         10 \<le> length h
         \<and> ev_satellite_id (proximity_threat 1 (sat_at 1 500) 2 (sat_at 2 550) 50) = Some sat_id)"
proof -
  have mem: "proximity_threat 1 (sat_at 1 500) 2 (sat_at 2 550) 50
     \<in> set (analyze_satellite_anomalies exact_radius_neighbors (two_sats 10 500 550) [sat_at 2 550])"
    using two_sats_first_event [of 550 500 exact_radius_neighbors "[sat_at 2 550]"] by simp
  from C1_analyze_store [of exact_radius_neighbors "two_sats 10 500 550" "[sat_at 2 550]" 1 "sat_at 1 500"]
  have "\<forall>e\<in>set (analyze_satellite_anomalies exact_radius_neighbors (two_sats 10 500 550) [sat_at 2 550]).
         \<exists>(sat_id, h) \<in> set (satellite_positions (two_sats 10 500 550)).
           10 \<le> length h \<and> ev_satellite_id e = Some sat_id"
    by (rule conjunct1 [OF conjunct2 [OF conjunct2]])
  from mem bspec [OF this mem] show ?thesis by (rule conjI)
qed

text \<open>
  The claim as stated fails: the analysis of a store with two satellites 50 km apart, 10
  samples each, returns events on an empty batch, and an event for satellite 1 on a batch
  that holds a sample of satellite 2 only.
\<close>

theorem C1_counterexample:
  "analyze_satellite_anomalies exact_radius_neighbors (two_sats 10 500 550) [] \<noteq> []
   \<and> proximity_threat 1 (sat_at 1 500) 2 (sat_at 2 550) 50
       \<in> set (analyze_satellite_anomalies exact_radius_neighbors (two_sats 10 500 550) [sat_at 2 550])
   \<and> ev_satellite_id (proximity_threat 1 (sat_at 1 500) 2 (sat_at 2 550) 50) = Some 1
   \<and> satellite_id (sat_at 2 550) = 2"
  using two_sats_first_event [of 550 500 exact_radius_neighbors "[]"] two_sats_first_event [of 550 500 exact_radius_neighbors "[sat_at 2 550]"]
  by (auto simp: proximity_threat_def sat_at_def)

text \<open>
  C3 (as amended). For two stored satellites whose latest samples are at a computed distance
  of 50 km, the first with at least 10 samples and the second with at least one, the
  analysis returns a PROXIMITY_THREAT event of severity CRITICAL for the first satellite,
  with its latest coordinates as source, those of the second as target, and the id of the
  second in its description.
\<close>

theorem C3_proximity_threat:
  assumes "(a, ha) \<in> set (satellite_positions st)" "(b, hb) \<in> set (satellite_positions st)"
    and "a \<noteq> b" "10 \<le> length ha" "hb \<noteq> []"
    and "calculate_3d_distance (last ha) (last hb) = 50"
  shows "\<exists>e \<in> set (analyze_satellite_anomalies search st positions).
           threat_type e = ''PROXIMITY_THREAT'' \<and> severity e = ''CRITICAL''
           \<and> ev_satellite_id e = Some a
           \<and> source_lat e = latitude (last ha) \<and> source_lon e = longitude (last ha)
           \<and> target_lat e = latitude (last hb) \<and> target_lon e = longitude (last hb)
           \<and> IntArg b \<in> set (description e)"
proof -
  let ?e = "proximity_threat a (last ha) b (last hb) 50"
  have "?e \<in> set (detect_proximity_threats st a (last ha))"
    unfolding detect_proximity_threats_iff using assms by force
  then have "?e \<in> set (analyze_satellite search st a ha)"
    using assms(4) by (simp add: analyze_satellite_def Let_def)
  then have "?e \<in> set (analyze_satellite_anomalies search st positions)"
    unfolding analyze_member using assms(1) by blast
  then show ?thesis
    by (rule bexI [rotated]) (simp add: proximity_threat_def)
qed

theorem C3_witness:
  "calculate_3d_distance (sat_at 1 500) (sat_at 2 550) = 50
   \<and> (\<exists>e \<in> set (analyze_satellite_anomalies exact_radius_neighbors (two_sats 10 500 550) [sat_at 1 500]).
           threat_type e = ''PROXIMITY_THREAT'' \<and> severity e = ''CRITICAL''
           \<and> ev_satellite_id e = Some 1
           \<and> source_lat e = 0 \<and> source_lon e = 0 \<and> target_lat e = 0 \<and> target_lon e = 0
           \<and> IntArg 2 \<in> set (description e))"
proof -
  let ?st = "two_sats 10 500 550"
  have 1: "(1, replicate 10 (sat_at 1 500)) \<in> set (satellite_positions ?st)"
    and 2: "(2, replicate 10 (sat_at 2 550)) \<in> set (satellite_positions ?st)"
    by (simp_all add: two_sats_def)
  have 3: "calculate_3d_distance (last (replicate 10 (sat_at 1 500)))
             (last (replicate 10 (sat_at 2 550))) = 50"
    by simp
  have 4: "latitude (sat_at i x) = 0" "longitude (sat_at i x) = 0" for i x
    by (simp_all add: sat_at_def)
  from C3_proximity_threat [OF 1 2 _ _ _ 3, of exact_radius_neighbors "[sat_at 1 500]"]
  show ?thesis by (simp add: 4)
qed

text \<open>
  The claim as stated fails: two satellites 50 km apart with one sample each yield no event,
  since a history of fewer than 10 samples is skipped.
\<close>

theorem C3_counterexample:
  "calculate_3d_distance (sat_at 1 500) (sat_at 2 550) = 50
   \<and> analyze_satellite_anomalies exact_radius_neighbors (two_sats 1 500 550) [sat_at 1 500] = []"
  by (simp add: analyze_satellite_anomalies_def analyze_satellite_def two_sats_def)

section \<open>The velocity spike scenario\<close>

lemma twelve:
  assumes "map f h = [v0, v1, v2, v3, v4, v5, v6, v7, v8, v9, v10, v11]"
  obtains p0 p1 p2 p3 p4 p5 p6 p7 p8 p9 p10 p11 where
    "h = [p0, p1, p2, p3, p4, p5, p6, p7, p8, p9, p10, p11]"
  using assms by (auto simp: map_eq_Cons_conv)

lemma spike_threshold: "2 * sqrt (9 / 20) < (3 / 2 :: real)"
proof -
  have "sqrt (9 / 20) < (3 / 4 :: real)"
    by (rule real_less_lsqrt) (simp_all add: power2_eq_square)
  then show ?thesis by simp
qed

lemma spike_exceeds:
  "\<not> exceeds (Some 0) (Some 0) (Some (sqrt (9 / 20)))"
  "exceeds (Some (3 / 2)) (Some 0) (Some (sqrt (9 / 20)))"
  "exceeds (Some (- (3 / 2))) (Some 0) (Some (sqrt (9 / 20)))"
  using spike_threshold by (simp_all add: exceeds_def)

lemma spike_detect:
  assumes "map velocity h = [7.5, 7.5, 7.5, 7.5, 7.5, 9.0, 7.5, 7.5, 7.5, 7.5, 7.5, 7.5]"
  shows "detect_velocity_anomalies h sid =
           [velocity_threat sid (h ! 5) (Some 1.5), velocity_threat sid (h ! 6) (Some (- 1.5))]"
proof -
  let ?D = "[None, Some 0, Some 0, Some 0, Some 0, Some (3 / 2), Some (- (3 / 2)),
             Some 0, Some 0, Some 0, Some 0, Some (0::real)]"
  from assms obtain p0 p1 p2 p3 p4 p5 p6 p7 p8 p9 p10 p11 where
    h: "h = [p0, p1, p2, p3, p4, p5, p6, p7, p8, p9, p10, p11]"
    by (rule twelve)
  have d: "series_diff (map velocity h) = ?D"
    unfolding assms by simp
  have std: "series_std ?D = Some (sqrt (9 / 20))"
    by (simp add: series_std_def Let_def dropna_def power2_eq_square)
  have mean: "series_mean ?D = Some 0"
    by (simp add: series_mean_def Let_def dropna_def)
  have len: "\<not> length h < 5"
    by (simp add: h)
  have "detect_velocity_anomalies h sid =
          map (\<lambda>(row, c). velocity_threat sid row c)
            (filter (\<lambda>(row, c). exceeds c (Some 0) (Some (sqrt (9 / 20)))) (zip h ?D))"
    unfolding detect_velocity_anomalies_def Let_def d std mean using len by simp
  also have "\<dots> = [velocity_threat sid p5 (Some (3 / 2)), velocity_threat sid p6 (Some (- (3 / 2)))]"
    unfolding h by (simp add: spike_exceeds)
  finally show ?thesis by (simp add: h)
qed


lemma velocity_events_of_analyze_satellite:
  "velocity_events_of sid (analyze_satellite search st k h) =
     (if k = sid \<and> 10 \<le> length h then detect_velocity_anomalies (last_n 50 h) sid else [])"
proof -
  have v: "velocity_events_of sid (detect_velocity_anomalies df k) =
             (if k = sid then detect_velocity_anomalies df k else [])" for df k
    by (auto simp: velocity_events_of_def filter_id_conv filter_empty_conv
        dest: velocity_events_satellite)
  have t: "velocity_events_of sid (detect_trajectory_anomalies search df k) = []" for df k
    by (auto simp: velocity_events_of_def filter_empty_conv dest: trajectory_events_satellite)
  have p: "velocity_events_of sid (detect_proximity_threats st k cur) = []" for cur k
    by (auto simp: velocity_events_of_def filter_empty_conv dest: proximity_events_satellite)
  have app: "velocity_events_of sid (xs @ ys) = velocity_events_of sid xs @ velocity_events_of sid ys"
    for xs ys by (simp add: velocity_events_of_def)
  have nil: "velocity_events_of sid [] = []"
    by (simp add: velocity_events_of_def)
  show ?thesis
    by (simp add: analyze_satellite_def Let_def app v t p nil)
qed

lemma concat_single_key:
  assumes "distinct (map fst xs)" "(k, v) \<in> set xs" "\<And>y. y \<in> set xs \<Longrightarrow> fst y \<noteq> k \<Longrightarrow> G y = []"
  shows "concat (map G xs) = G (k, v)"
proof -
  have "concat (map G xs) = concat (map G (filter (\<lambda>y. fst y = k) xs))"
    using assms(3) by (rule concat_map_filter_nonempty)
  then show ?thesis
    using filter_key_distinct [OF assms(1,2)] by simp
qed

lemma velocity_events_of_analyze:
  assumes "distinct (map fst (satellite_positions st))" "(sid, h) \<in> set (satellite_positions st)"
  shows "velocity_events_of sid (analyze_satellite_anomalies search st positions) =
           (if 10 \<le> length h then detect_velocity_anomalies (last_n 50 h) sid else [])"
proof -
  let ?G = "\<lambda>y. velocity_events_of sid (analyze_satellite search st (fst y) (snd y))"
  have "velocity_events_of sid (analyze_satellite_anomalies search st positions)
          = concat (map ?G (satellite_positions st))"
    by (simp add: analyze_satellite_anomalies_def velocity_events_of_def filter_concat o_def
        case_prod_beta)
  also have "\<dots> = ?G (sid, h)"
    using assms by (rule concat_single_key) (simp add: velocity_events_of_analyze_satellite)
  finally show ?thesis
    by (simp add: velocity_events_of_analyze_satellite)
qed

lemma spike_analysis:
  assumes "distinct (map fst (satellite_positions st))"
    and "(sid, h) \<in> set (satellite_positions st)"
    and "map velocity h = [7.5, 7.5, 7.5, 7.5, 7.5, 9.0, 7.5, 7.5, 7.5, 7.5, 7.5, 7.5]"
  shows "velocity_events_of sid (analyze_satellite_anomalies search st positions) =
           [velocity_threat sid (h ! 5) (Some 1.5), velocity_threat sid (h ! 6) (Some (- 1.5))]"
proof -
  have "length (map velocity h) = 12"
    unfolding assms(3) by simp
  then have len: "length h = 12" by simp
  then have "last_n 50 h = h" by (simp add: last_n_def)
  with velocity_events_of_analyze [OF assms(1,2), of search positions] len spike_detect [OF assms(3)]
  show ?thesis by simp
qed

text \<open>
  C2 (as amended). If the stored history of satellite 7 consists of exactly 12 samples whose
  speeds are all 7.5 km/s except the 6th at 9.0 km/s, the analysis returns exactly two
  VELOCITY_ANOMALY events for satellite 7: one with the coordinates of the 6th sample (the
  change of +1.5 km/s into the spike) and one with those of the 7th sample (the change of
  -1.5 km/s out of it).
\<close>

theorem C2_velocity_spike:
  assumes "distinct (map fst (satellite_positions st))"
    and "(7, h) \<in> set (satellite_positions st)"
    and "map velocity h = [7.5, 7.5, 7.5, 7.5, 7.5, 9.0, 7.5, 7.5, 7.5, 7.5, 7.5, 7.5]"
  shows "velocity_events_of 7 (analyze_satellite_anomalies search st positions) =
           [velocity_threat 7 (h ! 5) (Some 1.5), velocity_threat 7 (h ! 6) (Some (- 1.5))]
         \<and> map (\<lambda>e. (source_lat e, source_lon e, target_lat e, target_lon e))
             (velocity_events_of 7 (analyze_satellite_anomalies search st positions)) =
           [(latitude (h ! 5), longitude (h ! 5), latitude (h ! 5), longitude (h ! 5)),
            (latitude (h ! 6), longitude (h ! 6), latitude (h ! 6), longitude (h ! 6))]"
  using spike_analysis [OF assms, of search positions] by (simp add: velocity_threat_def)

lemma upt_12: "[0..<12] = [0, 1, 2, 3, 4, 5, 6, 7, 8, 9, 10, 11]"
  by code_simp

lemma spike_store_facts:
  "distinct (map fst (satellite_positions spike_store))"
  "(7, map spike_sample [0..<12]) \<in> set (satellite_positions spike_store)"
  "map velocity (map spike_sample [0..<12]) =
     [7.5, 7.5, 7.5, 7.5, 7.5, 9.0, 7.5, 7.5, 7.5, 7.5, 7.5, 7.5]"
  by (simp_all add: spike_store_def upt_12 spike_sample_def)

theorem C2_witness:
  "velocity_events_of 7 (analyze_satellite_anomalies exact_radius_neighbors spike_store [spike_sample 11]) =
     [velocity_threat 7 (spike_sample 5) (Some 1.5), velocity_threat 7 (spike_sample 6) (Some (- 1.5))]"
  using C2_velocity_spike [OF spike_store_facts, of exact_radius_neighbors "[spike_sample 11]"]
  by (simp del: upt_Suc)

text \<open>
  The claim as stated fails: on the 12 samples of the scenario the analysis returns two
  VELOCITY_ANOMALY events for satellite 7, at the 6th and at the 7th sample (longitudes 5
  and 6), not exactly one.
\<close>

theorem C2_counterexample:
  "length (velocity_events_of 7 (analyze_satellite_anomalies exact_radius_neighbors spike_store [spike_sample 11])) = 2
   \<and> map source_lon (velocity_events_of 7 (analyze_satellite_anomalies exact_radius_neighbors spike_store [spike_sample 11]))
       = [5, 6]"
  using spike_analysis [OF spike_store_facts, of exact_radius_neighbors "[spike_sample 11]"]
  by (simp add: velocity_threat_def spike_sample_def del: upt_Suc)

section \<open>The depth-first search keeps the labelling sound\<close>

lemma label_not_noise [simp]: "int c \<noteq> - 1"
  by linarith













section \<open>Every cluster of the scan has at least 3 points\<close>









section \<open>The labelling of the clustering\<close>

lemma dbscan_dfs_length:
  "length (dbscan_dfs is_core nbrs c i stack labels) = length labels"
proof (induction is_core nbrs c i stack labels rule: dbscan_dfs.induct)
  case (1 is_core nbrs c i stack labels)
  show ?case
  proof (cases "i < length labels \<and> labels ! i = -1")
    case True
    let ?l = "labels[i := int c]"
    let ?s = "if is_core ! i
              then rev (filter (\<lambda>v. ?l ! v = -1) (nbrs ! i)) @ stack else stack"
    have unfold: "dbscan_dfs is_core nbrs c i stack labels =
        (case ?s of [] \<Rightarrow> ?l | v # rest \<Rightarrow> dbscan_dfs is_core nbrs c v rest ?l)"
      using True by (subst dbscan_dfs.simps) (simp add: Let_def)
    show ?thesis
    proof (cases ?s)
      case Nil
      then show ?thesis unfolding unfold by simp
    next
      case (Cons v rest)
      from "1.IH"(1) [OF True refl refl Cons] Cons show ?thesis
        unfolding unfold by simp
    qed
  next
    case False
    have unfold: "dbscan_dfs is_core nbrs c i stack labels =
        (case stack of [] \<Rightarrow> labels | v # rest \<Rightarrow> dbscan_dfs is_core nbrs c v rest labels)"
      using False by (subst dbscan_dfs.simps) auto
    show ?thesis
    proof (cases stack)
      case Nil
      then show ?thesis unfolding unfold by simp
    next
      case (Cons v rest)
      from "1.IH"(2) [OF False Cons] Cons show ?thesis
        unfolding unfold by simp
    qed
  qed
qed

lemma dbscan_inner_length:
  "length (dbscan_inner is_core nbrs idx c labels) = length labels"
  by (induction idx arbitrary: c labels) (simp_all add: dbscan_dfs_length)

lemma dbscan_fit_predict_length:
  "length (dbscan_fit_predict search eps min_samples X) = length X"
  by (simp add: dbscan_fit_predict_def Let_def dbscan_inner_length)


section \<open>The neighbourhoods in exact arithmetic\<close>




section \<open>Properties of the threat zones\<close>

lemma zip_by_index:
  assumes "length xs = length ys"
  shows "zip xs ys = map (\<lambda>i. (xs ! i, ys ! i)) [0..<length xs]"
  using assms by (intro nth_equalityI) simp_all

lemma cluster_members_by_label:
  assumes "length df = length clusters"
  shows "cluster_members df clusters c =
           map ((!) df) (filter (\<lambda>i. clusters ! i = c) [0..<length df])"
  unfolding cluster_members_def zip_by_index [OF assms]
  by (simp add: filter_map o_def)

lemma count_by_label:
  "length (filter (\<lambda>i. clusters ! i = c) [0..<n]) = card {i. i < n \<and> clusters ! i = c}"
proof -
  have "{i. i < length [0..<n] \<and> clusters ! ([0..<n] ! i) = c} = {i. i < n \<and> clusters ! i = c}"
    by auto
  then show ?thesis by (simp add: length_filter_conv_card)
qed

lemma zones_of_store:
  "generate_threat_zones search st =
     (if length (last_n 100 (threat_events st)) < 3 then []
      else map (threat_zone (last_n 100 (threat_events st))
                  (dbscan_fit_predict search 5 3
                     (map (\<lambda>t. [source_lat t, source_lon t]) (last_n 100 (threat_events st)))))
             (filter (\<lambda>c. c \<noteq> -1)
                (sort (remdups (dbscan_fit_predict search 5 3
                     (map (\<lambda>t. [source_lat t, source_lon t]) (last_n 100 (threat_events st))))))))"
  by (simp add: generate_threat_zones_def Let_def)




lemma euclidean_pair: "euclidean [a, b] [c, b] = \<bar>a - c\<bar>"
  by (simp add: euclidean_def)

lemma upt_4: "[0..<4] = [0, 1, 2, 3]"
  by code_simp


lemma zone_store_window:
  "last_n 100 (threat_events zone_store) = [zone_event 0, zone_event 1, zone_event 2, zone_event 3]"
  by (simp add: zone_store_def last_n_def)

lemma zone_store_features:
  "map (\<lambda>t. [source_lat t, source_lon t]) [zone_event 0, zone_event 1, zone_event 2, zone_event 3]
     = [[0, 0], [3, 0], [0, 0], [3, 0]]"
  by (simp add: zone_event_def)

lemma zone_store_neighbors:
  "exact_radius_neighbors 5 [[0, 0], [3, 0], [0, 0], [3, 0]] =
     [[0, 1, 2, 3], [0, 1, 2, 3], [0, 1, 2, 3], [0, 1, 2, 3]]"
  by (simp add: exact_radius_neighbors_def upt_4 euclidean_pair)

lemma zone_store_clusters:
  "dbscan_fit_predict exact_radius_neighbors 5 3 [[0, 0], [3, 0], [0, 0], [3, 0]] = [0, 0, 0, 0]"
  by (simp add: dbscan_fit_predict_def Let_def zone_store_neighbors upt_4 dbscan_dfs.simps)

lemma zone_store_labels:
  "dbscan_fit_predict exact_radius_neighbors 5 3
     (map (\<lambda>t. [source_lat t, source_lon t])
        [zone_event 0, zone_event 1, zone_event 2, zone_event 3])
     = [0, 0, 0, 0]"
  by (simp only: zone_store_features zone_store_clusters)

lemma zone_store_zones:
  "generate_threat_zones exact_radius_neighbors zone_store =
     [threat_zone [zone_event 0, zone_event 1, zone_event 2, zone_event 3] [0, 0, 0, 0] 0]"
  unfolding zones_of_store zone_store_window zone_store_labels
  by simp




lemma series_mean_total:
  "xs \<noteq> [] \<Longrightarrow>
   series_mean (map (\<lambda>t. Some (f t)) xs) = Some (sum_list (map f xs) / real (length xs))"
proof -
  have "dropna (map (\<lambda>t. Some (f t)) xs) = map f xs"
    by (induction xs) simp_all
  then show "xs \<noteq> [] \<Longrightarrow> ?thesis"
    by (simp add: series_mean_def Let_def)
qed

lemma severity_scores_rank:
  "s \<in> {''LOW'', ''MEDIUM'', ''HIGH'', ''CRITICAL''} \<Longrightarrow>
   severity_scores s = Some (spec_severity_rank s)"
  by (auto simp: severity_scores_def spec_severity_rank_def)

lemma severity_bucket_spec: "severity_bucket (Some a) = spec_severity_bucket a"
  by (simp add: severity_bucket_def spec_severity_bucket_def)

lemma hd_sort_least:
  fixes xs :: "'a::linorder list"
  assumes "xs \<noteq> []"
  shows "hd (sort xs) \<in> set xs" and "\<forall>x\<in>set xs. hd (sort xs) \<le> x"
proof -
  from assms have "sort xs \<noteq> []" by (metis length_sort length_0_conv)
  then obtain y ys where s: "sort xs = y # ys" by (cases "sort xs") auto
  have "set (sort xs) = set xs" by simp
  with s have set: "set xs = insert y (set ys)" by simp
  have "sorted (y # ys)" using s by (metis sorted_sort)
  then have le: "\<forall>x\<in>set ys. y \<le> x" by simp
  show "hd (sort xs) \<in> set xs" by (simp add: s set)
  show "\<forall>x\<in>set xs. hd (sort xs) \<le> x" using le by (simp add: s set)
qed

lemma most_frequent_exists:
  assumes "xs \<noteq> []"
  shows "\<exists>k\<in>set xs. \<forall>k'\<in>set xs. count_list xs k' \<le> count_list xs k"
proof -
  let ?S = "count_list xs ` set xs"
  have fin: "finite ?S" and ne: "?S \<noteq> {}" using assms by auto
  from Max_in [OF fin ne] obtain k where k: "k \<in> set xs" "count_list xs k = Max ?S" by auto
  have "count_list xs k' \<le> count_list xs k" if "k' \<in> set xs" for k'
    using that fin k(2) by (simp add: Max_ge)
  with k(1) show ?thesis by blast
qed

lemma series_mode_first:
  assumes "xs \<noteq> []"
  shows "hd (series_mode xs) \<in> set xs"
    and "count_list xs k \<le> count_list xs (hd (series_mode xs))"
    and "count_list xs k = count_list xs (hd (series_mode xs)) \<Longrightarrow> hd (series_mode xs) \<le> k"
proof -
  let ?M = "filter (\<lambda>k. \<forall>k'\<in>set xs. count_list xs k' \<le> count_list xs k) (remdups xs)"
  let ?d = "hd (series_mode xs)"
  from most_frequent_exists [OF assms] have ne: "?M \<noteq> []"
    by (auto simp: filter_empty_conv)
  have d: "?d = hd (sort ?M)" by (simp add: series_mode_def)
  from hd_sort_least(1) [OF ne] have dM: "?d \<in> set ?M" by (simp add: d)
  then show mem: "?d \<in> set xs" by simp
  from dM have max: "\<forall>k'\<in>set xs. count_list xs k' \<le> count_list xs ?d" by simp
  show le: "count_list xs k \<le> count_list xs ?d"
  proof (cases "k \<in> set xs")
    case True
    with max show ?thesis by simp
  next
    case False
    then show ?thesis by (simp add: count_list_0_iff)
  qed
  show "?d \<le> k" if eq: "count_list xs k = count_list xs ?d"
  proof -
    have "count_list xs ?d \<noteq> 0" using mem by (simp add: count_list_0_iff)
    with eq have "count_list xs k \<noteq> 0" by simp
    then have k: "k \<in> set xs" using count_list_0_iff [of xs k] by auto
    with max eq have "k \<in> set ?M" by simp
    with hd_sort_least(2) [OF ne] show ?thesis by (simp add: d)
  qed
qed

lemma filter_eq_distinct: "distinct xs \<Longrightarrow> c \<in> set xs \<Longrightarrow> filter (\<lambda>x. x = c) xs = [c]"
proof (induction xs)
  case Nil
  then show ?case by simp
next
  case (Cons x xs)
  show ?case
  proof (cases "x = c")
    case True
    with Cons.prems have "filter (\<lambda>x. x = c) xs = []"
      by (auto simp: filter_empty_conv)
    with True show ?thesis by simp
  next
    case False
    with Cons show ?thesis by auto
  qed
qed


lemma zone_of_cluster:
  assumes "3 \<le> length (last_n 100 (threat_events st))"
    and "clusters = dbscan_fit_predict search 5 3
             (map (\<lambda>t. [source_lat t, source_lon t]) (last_n 100 (threat_events st)))"
    and "c \<in> set clusters" "c \<noteq> -1"
  shows "filter (\<lambda>z. zone_id z = [Lit ''ZONE_'', IntArg c]) (generate_threat_zones search st)
           = [threat_zone (last_n 100 (threat_events st)) clusters c]"
proof -
  let ?df = "last_n 100 (threat_events st)"
  let ?ids = "filter (\<lambda>c. c \<noteq> -1) (sort (remdups clusters))"
  have zones: "generate_threat_zones search st = map (threat_zone ?df clusters) ?ids"
    using assms(1,2) by (simp add: zones_of_store)
  have "filter (\<lambda>z. zone_id z = [Lit ''ZONE_'', IntArg c]) (map (threat_zone ?df clusters) ?ids)
          = map (threat_zone ?df clusters) (filter (\<lambda>x. x = c) ?ids)"
    by (simp add: filter_map o_def threat_zone_def Let_def)
  also have "filter (\<lambda>x. x = c) ?ids = [c]"
    using assms(3,4) by (intro filter_eq_distinct) auto
  finally show ?thesis by (simp add: zones)
qed

text \<open>
  C4 (as amended). For every non-noise cluster that the zone aggregator finds among the last
  100 stored events (at least 3 of them) there is exactly one returned zone with the number
  of the cluster. Its members are the events of the window whose label is that number, in
  order. Its centre is the arithmetic mean of the latitudes and longitudes of the members;
  its severity, the members' severities being among LOW, MEDIUM, HIGH and CRITICAL, is the
  mean of their ranks 1 to 4, bucketed as LOW below 1.5, MEDIUM below 2.5, HIGH below 3.5,
  else CRITICAL; its dominant kind is a most frequent kind among the members and, among the
  most frequent kinds, the first in the alphabetical order of the kind names; its radius is
  500 and its threat count the number of events with the label of the cluster.
\<close>

theorem C4_zone_summary:
  assumes "threat_df = last_n 100 (threat_events st)"
    and "3 \<le> length threat_df"
    and "clusters = dbscan_fit_predict search 5 3 (map (\<lambda>t. [source_lat t, source_lon t]) threat_df)"
    and "c \<in> set clusters" "c \<noteq> -1"
    and "members = map ((!) threat_df) (filter (\<lambda>i. clusters ! i = c) [0..<length threat_df])"
    and "kinds = map threat_type members"
  shows "\<exists>z. filter (\<lambda>z. zone_id z = [Lit ''ZONE_'', IntArg c]) (generate_threat_zones search st) = [z]
           \<and> members \<noteq> []
           \<and> center_lat z = sum_list (map source_lat members) / real (length members)
           \<and> center_lon z = sum_list (map source_lon members) / real (length members)
           \<and> (set (map severity members) \<subseteq> {''LOW'', ''MEDIUM'', ''HIGH'', ''CRITICAL''} \<longrightarrow>
                zone_severity z =
                  spec_severity_bucket
                    (sum_list (map (\<lambda>t. spec_severity_rank (severity t)) members)
                       / real (length members)))
           \<and> dominant_threat z \<in> set kinds
           \<and> (\<forall>k. count_list kinds k \<le> count_list kinds (dominant_threat z))
           \<and> (\<forall>k. count_list kinds k = count_list kinds (dominant_threat z) \<longrightarrow>
                  dominant_threat z \<le> k)
           \<and> radius z = 500
           \<and> threat_count z = length members
           \<and> threat_count z = card {i. i < length threat_df \<and> clusters ! i = c}"
proof -
  let ?z = "threat_zone threat_df clusters c"
  have len: "length threat_df = length clusters"
    by (simp add: assms(3) dbscan_fit_predict_length)
  have mem: "cluster_members threat_df clusters c = members"
    unfolding assms(6) using len by (rule cluster_members_by_label)
  have one: "filter (\<lambda>z. zone_id z = [Lit ''ZONE_'', IntArg c]) (generate_threat_zones search st) = [?z]"
    using assms(1-5) by (simp add: zone_of_cluster)
  from assms(4) obtain i where i: "i < length clusters" "clusters ! i = c"
    by (auto simp: in_set_conv_nth)
  then have "i \<in> set (filter (\<lambda>i. clusters ! i = c) [0..<length threat_df])"
    using len by simp
  then have "0 < length (filter (\<lambda>i. clusters ! i = c) [0..<length threat_df])"
    by (rule length_pos_if_in_set)
  then have ne: "members \<noteq> []" by (simp add: assms(6))
  then have kne: "kinds \<noteq> []" by (simp add: assms(7))
  have centre: "center_lat ?z = sum_list (map source_lat members) / real (length members)"
    "center_lon ?z = sum_list (map source_lon members) / real (length members)"
    by (simp_all add: threat_zone_def Let_def column_mean_def mem)
  have sev: "zone_severity ?z =
        spec_severity_bucket
          (sum_list (map (\<lambda>t. spec_severity_rank (severity t)) members) / real (length members))"
    if valid: "set (map severity members) \<subseteq> {''LOW'', ''MEDIUM'', ''HIGH'', ''CRITICAL''}"
  proof -
    have eq: "map (\<lambda>t. severity_scores (severity t)) members
            = map (\<lambda>t. Some (spec_severity_rank (severity t))) members"
      using valid by (intro map_cong refl severity_scores_rank) auto
    have "series_mean (map (\<lambda>t. severity_scores (severity t)) members)
            = Some (sum_list (map (\<lambda>t. spec_severity_rank (severity t)) members)
                      / real (length members))"
      unfolding eq using ne by (rule series_mean_total)
    then show ?thesis
      by (simp add: threat_zone_def Let_def severity_bucket_spec mem)
  qed
  have dom: "dominant_threat ?z = hd (series_mode kinds)"
    by (simp add: threat_zone_def Let_def mem assms(7))
  have count: "radius ?z = 500" "threat_count ?z = length members"
    by (simp_all add: threat_zone_def Let_def mem)
  have card: "length members = card {i. i < length threat_df \<and> clusters ! i = c}"
    unfolding assms(6) by (simp add: count_by_label)
  show ?thesis
    using one ne centre sev count card series_mode_first [OF kne] unfolding dom [symmetric]
    by (intro exI [of _ ?z]) simp
qed

lemma kind_order: "\<not> ''VELOCITY_ANOMALY'' \<le> ''PROXIMITY_THREAT''"
  by simp

lemma zone_store_members:
  "map ((!) [zone_event 0, zone_event 1, zone_event 2, zone_event 3])
     (filter (\<lambda>i. [0, 0, 0, 0 :: int] ! i = 0)
        [0..<length [zone_event 0, zone_event 1, zone_event 2, zone_event 3]])
     = [zone_event 0, zone_event 1, zone_event 2, zone_event 3]"
  by (simp add: upt_4)

theorem C4_witness:
  "\<exists>z. filter (\<lambda>z. zone_id z = [Lit ''ZONE_'', IntArg 0])
         (generate_threat_zones exact_radius_neighbors zone_store) = [z]
       \<and> center_lat z = 3 / 2 \<and> center_lon z = 0
       \<and> zone_severity z = ''HIGH''
       \<and> dominant_threat z = ''PROXIMITY_THREAT''
       \<and> radius z = 500 \<and> threat_count z = 4"
proof -
  let ?kinds = "[''VELOCITY_ANOMALY'', ''PROXIMITY_THREAT'', ''VELOCITY_ANOMALY'', ''PROXIMITY_THREAT'']"
  have c: "(0::int) \<in> set [0, 0, 0, 0]" "(0::int) \<noteq> -1" by simp_all
  have n: "3 \<le> length [zone_event 0, zone_event 1, zone_event 2, zone_event 3]" by simp
  note inst = C4_zone_summary [OF refl _ refl _ _ refl refl,
      where st = zone_store and search = exact_radius_neighbors and c = 0,
      unfolded zone_store_window zone_store_labels zone_store_members, OF n c]
  from inst obtain z where
    z: "filter (\<lambda>z. zone_id z = [Lit ''ZONE_'', IntArg 0])
          (generate_threat_zones exact_radius_neighbors zone_store) = [z]"
      "center_lat z = 3 / 2" "center_lon z = 0"
      "zone_severity z = ''HIGH''" "radius z = 500" "threat_count z = 4"
    and dom: "dominant_threat z \<in> set ?kinds"
      "\<forall>k. count_list ?kinds k = count_list ?kinds (dominant_threat z) \<longrightarrow> dominant_threat z \<le> k"
    by (auto simp: zone_event_def spec_severity_rank_def spec_severity_bucket_def)
  from dom(1) consider "dominant_threat z = ''VELOCITY_ANOMALY''"
    | "dominant_threat z = ''PROXIMITY_THREAT''" by auto
  then have "dominant_threat z = ''PROXIMITY_THREAT''"
  proof cases
    case 1
    with dom(2) [rule_format, of "''PROXIMITY_THREAT''"] kind_order show ?thesis by simp
  next
    case 2
    then show ?thesis .
  qed
  with z show ?thesis by blast
qed

text \<open>
  The claim as stated fails: the four events of the example form one cluster in which
  VELOCITY_ANOMALY and PROXIMITY_THREAT both occur twice. The first of the two that is
  encountered among the members is VELOCITY_ANOMALY; the zone reports PROXIMITY_THREAT.
\<close>

theorem C4_counterexample:
  "map threat_count (generate_threat_zones exact_radius_neighbors zone_store) = [4]
   \<and> map threat_type (threat_events zone_store)
       = [''VELOCITY_ANOMALY'', ''PROXIMITY_THREAT'', ''VELOCITY_ANOMALY'', ''PROXIMITY_THREAT'']
   \<and> spec_first_encountered (map threat_type (threat_events zone_store)) = ''VELOCITY_ANOMALY''
   \<and> map dominant_threat (generate_threat_zones exact_radius_neighbors zone_store)
       = [''PROXIMITY_THREAT'']"
proof -
  have kinds: "map threat_type (threat_events zone_store)
       = [''VELOCITY_ANOMALY'', ''PROXIMITY_THREAT'', ''VELOCITY_ANOMALY'', ''PROXIMITY_THREAT'']"
    by (simp add: zone_store_def zone_event_def)
  have first: "spec_first_encountered
       [''VELOCITY_ANOMALY'', ''PROXIMITY_THREAT'', ''VELOCITY_ANOMALY'', ''PROXIMITY_THREAT'']
       = ''VELOCITY_ANOMALY''"
    by (simp add: spec_first_encountered_def)
  have members: "cluster_members [zone_event 0, zone_event 1, zone_event 2, zone_event 3]
       [0, 0, 0, 0] 0 = [zone_event 0, zone_event 1, zone_event 2, zone_event 3]"
    by (simp add: cluster_members_def)
  have mode: "series_mode
       [''VELOCITY_ANOMALY'', ''PROXIMITY_THREAT'', ''VELOCITY_ANOMALY'', ''PROXIMITY_THREAT'']
       = [''PROXIMITY_THREAT'', ''VELOCITY_ANOMALY'']"
    by (simp add: series_mode_def)
  have kinds4: "map threat_type [zone_event 0, zone_event 1, zone_event 2, zone_event 3]
       = [''VELOCITY_ANOMALY'', ''PROXIMITY_THREAT'', ''VELOCITY_ANOMALY'', ''PROXIMITY_THREAT'']"
    by (simp add: zone_event_def)
  have "dominant_threat (threat_zone [zone_event 0, zone_event 1, zone_event 2, zone_event 3]
          [0, 0, 0, 0] 0) = ''PROXIMITY_THREAT''"
    unfolding threat_zone_def Let_def members kinds4 mode by simp
  moreover have "threat_count (threat_zone [zone_event 0, zone_event 1, zone_event 2, zone_event 3]
          [0, 0, 0, 0] 0) = 4"
    unfolding threat_zone_def Let_def members by simp
  ultimately show ?thesis
    by (simp add: zone_store_zones kinds first)
qed

end
